theory Spec2Isabelle
  imports
    Main
    "HOL-Library.Word"
    "HOL-Library.Multiset"
    "HOL-Library.Char_ord"
    "HOL-Library.List_Lexorder"
    "HOL-Library.AList"
begin

section \<open>Strings\<close>

text \<open>
  Go strings are byte sequences and are modelled as \<^typ>\<open>string\<close>. Comparison of
  strings (\<^verbatim>\<open>sort.Strings\<close>, \<^verbatim>\<open>==\<close>) is bytewise lexicographic, which is the
  order of \<^theory_text>\<open>Char_ord\<close> and \<^theory_text>\<open>List_Lexorder\<close>. The case mappings
  \<^verbatim>\<open>strings.ToLower\<close> and \<^verbatim>\<open>strings.ToUpper\<close> are modelled on ASCII letters;
  bytes outside ASCII are left alone (Go maps non-ASCII runes by the Unicode tables).
\<close>

definition toLowerChar :: "char \<Rightarrow> char" where
  "toLowerChar c =
     (let n = (of_char c :: nat) in if 65 \<le> n \<and> n \<le> 90 then char_of (n + 32) else c)"

definition toUpperChar :: "char \<Rightarrow> char" where
  "toUpperChar c =
     (let n = (of_char c :: nat) in if 97 \<le> n \<and> n \<le> 122 then char_of (n - 32) else c)"

definition ToLower :: "string \<Rightarrow> string" where
  "ToLower s = map toLowerChar s"

definition ToUpper :: "string \<Rightarrow> string" where
  "ToUpper s = map toUpperChar s"

definition HasPrefix :: "string \<Rightarrow> string \<Rightarrow> bool" where
  "HasPrefix s p = (length p \<le> length s \<and> take (length p) s = p)"

definition HasSuffix :: "string \<Rightarrow> string \<Rightarrow> bool" where
  "HasSuffix s x = (length x \<le> length s \<and> drop (length s - length x) s = x)"

text \<open>The verb \<^verbatim>\<open>%t\<close> of \<^verbatim>\<open>fmt.Sprintf\<close>.\<close>

definition fmt_bool :: "bool \<Rightarrow> string" where
  "fmt_bool b = (if b then ''true'' else ''false'')"

section \<open>The backend's data (package powerdns)\<close>

text \<open>
  Field names carry the name of their struct as a prefix, since several structs of the
  source share field names (\<^verbatim>\<open>Name\<close>, \<^verbatim>\<open>Type\<close>, \<^verbatim>\<open>Content\<close>, \<^verbatim>\<open>RRsets\<close>).
\<close>

record Record =
  Record_Content :: string
  Record_Disabled :: bool

record Comment =
  Comment_Content :: string
  Comment_Account :: string

record RRset =
  RRset_Name :: string
  RRset_Type :: string
  RRset_ChangeType :: string
  RRset_Records :: "Record list"
  RRset_Comments :: "Comment list"
  RRset_TTL :: "32 word"

record Zone =
  Zone_ID :: string
  Zone_Name :: string
  Zone_Type :: string
  Zone_Kind :: string
  Zone_Account :: string
  Zone_Masters :: "string list"
  Zone_Nameservers :: "string list"
  Zone_RRsets :: "RRset list"

record ZonePatch =
  ZonePatch_RRsets :: "RRset list"

section \<open>Ownership and the update test (manager.go)\<close>

text \<open>
  The methods of \<^verbatim>\<open>Manager\<close> below read only the field \<^verbatim>\<open>accountName\<close>, which is
  their first argument here.
\<close>

definition isManaged :: "string \<Rightarrow> RRset \<Rightarrow> bool" where
  "isManaged accountName rrset =
     list_ex (\<lambda>comment. Comment_Account comment = accountName) (RRset_Comments rrset)"

text \<open>\<^verbatim>\<open>fmt.Sprintf("%s|%t", r.Content, r.Disabled)\<close>\<close>

definition recordString :: "Record \<Rightarrow> string" where
  "recordString r = Record_Content r @ ''|'' @ fmt_bool (Record_Disabled r)"

text \<open>
  The final loop of \<^verbatim>\<open>shouldUpdateRRset\<close> walks the indices of the sorted desired
  strings and reads the sorted existing strings at the same index; it is reached only
  when both lists have the same length, so every read is in range.
\<close>

definition shouldUpdateRRset :: "RRset \<Rightarrow> RRset \<Rightarrow> bool" where
  "shouldUpdateRRset desired existing =
     (if RRset_TTL desired \<noteq> RRset_TTL existing then True
      else if length (RRset_Records desired) \<noteq> length (RRset_Records existing) then True
      else
        (let desiredContents = sort (map recordString (RRset_Records desired));
             existingContents = sort (map recordString (RRset_Records existing))
         in list_ex (\<lambda>i. desiredContents ! i \<noteq> existingContents ! i)
              [0 ..< length desiredContents]))"

definition createRRsetPatch :: "string \<Rightarrow> RRset \<Rightarrow> RRset" where
  "createRRsetPatch accountName desired =
     \<lparr> RRset_Name = RRset_Name desired,
       RRset_Type = RRset_Type desired,
       RRset_ChangeType = ''REPLACE'',
       RRset_Records = RRset_Records desired,
       RRset_Comments =
         [\<lparr> Comment_Content = ''Managed by zone-manager'', Comment_Account = accountName \<rparr>],
       RRset_TTL = RRset_TTL desired \<rparr>"

definition rrsetKey :: "string \<Rightarrow> string \<Rightarrow> string" where
  "rrsetKey name recordType = ToLower name @ ''/'' @ ToUpper recordType"

definition buildFQDN :: "string \<Rightarrow> string \<Rightarrow> string" where
  "buildFQDN name zoneID =
     (if name = ''@'' then zoneID
      else if HasSuffix name ''.'' then name
      else name @ ''.'' @ zoneID)"

definition normalizeNameserver :: "string \<Rightarrow> string \<Rightarrow> string" where
  "normalizeNameserver ns zoneID =
     (if HasSuffix ns ''.'' then ns else ns @ ''.'' @ zoneID)"

definition normalizeNameservers :: "string list \<Rightarrow> string \<Rightarrow> string list" where
  "normalizeNameservers nameservers zoneID =
     map (\<lambda>ns. normalizeNameserver ns zoneID) nameservers"

section \<open>Configuration (package config)\<close>

text \<open>
  The value that the YAML decoder leaves in a field of type \<^verbatim>\<open>interface{}\<close>: \<^verbatim>\<open>nil\<close>,
  a string, a bool, a list, a map with string keys, or anything else (numbers, maps with
  other keys), on which the type switches of the source take their default branch.
\<close>

datatype yaml =
    YNil
  | YString string
  | YBool bool
  | YOther
  | YList "yaml list"
  | YMap "(string \<times> yaml) list"

record RRsetInput =
  RRsetInput_Name :: string
  RRsetInput_Type :: string
  RRsetInput_Records :: yaml
  RRsetInput_TTL :: "32 word option"
  RRsetInput_Comment :: string

record CfgZone =
  CfgZone_Kind :: string
  CfgZone_Nameservers :: "string list"
  CfgZone_RRsets :: "RRsetInput list"

text \<open>
  A Go map is an association list with distinct keys: a store is \<^const>\<open>AList.update\<close>, a
  read is \<^const>\<open>map_of\<close>, and \<^verbatim>\<open>range\<close> walks the list. Go leaves the order of
  \<^verbatim>\<open>range\<close> open; the list fixes one order, and the theorems below hold for every list.
\<close>

record Config =
  Config_Zones :: "(string \<times> CfgZone) list"

record CfgRecord =
  CfgRecord_Content :: string
  CfgRecord_Comment :: string
  CfgRecord_Disabled :: bool

record CfgRRset =
  CfgRRset_Name :: string
  CfgRRset_Type :: string
  CfgRRset_Comment :: string
  CfgRRset_Records :: "CfgRecord list"
  CfgRRset_TTL :: "32 word"

record ZoneState =
  ZoneState_Exists :: bool
  ZoneState_IsManaged :: bool

text \<open>The errors of \<^verbatim>\<open>normalizeRecords\<close>, one constructor for each message.\<close>

datatype recordError =
    UnsupportedRecordsType
  | UnsupportedItemType nat
  | ContentMustBeString
  | DisabledMustBeBoolean
  | CommentMustBeString
  | RecordError nat recordError

text \<open>
  A validation message is kept as the format that \<^verbatim>\<open>errs.Add\<close> was called with and
  its arguments; \<^verbatim>\<open>rrsetID\<close> is the zone name, the index, the name and the type.
\<close>

type_synonym rrsetID = "string \<times> nat \<times> string \<times> string"

datatype violation =
    NameserversRequired string
  | ZoneNotManaged string
  | NameserverEmpty string nat
  | InvalidKind string string
  | NSInRRsets rrsetID
  | SOAInRRsets rrsetID
  | NameRequired rrsetID
  | TypeRequired rrsetID
  | DuplicateRRset rrsetID
  | RecordsInvalid rrsetID recordError
  | NoRecords rrsetID
  | ContentEmpty rrsetID nat

definition CanonicalZoneName :: "string \<Rightarrow> string" where
  "CanonicalZoneName name = (if \<not> HasSuffix name ''.'' then name @ ''.'' else name)"

definition parseRecordMap :: "(string \<times> yaml) list \<Rightarrow> recordError + CfgRecord" where
  "parseRecordMap m =
     (case (case map_of m ''content'' of
              None \<Rightarrow> Inr []
            | Some (YString s) \<Rightarrow> Inr s
            | Some _ \<Rightarrow> Inl ContentMustBeString) of
        Inl err \<Rightarrow> Inl err
      | Inr content \<Rightarrow>
     (case (case map_of m ''disabled'' of
              None \<Rightarrow> Inr False
            | Some (YBool b) \<Rightarrow> Inr b
            | Some _ \<Rightarrow> Inl DisabledMustBeBoolean) of
        Inl err \<Rightarrow> Inl err
      | Inr disabled \<Rightarrow>
     (case (case map_of m ''comment'' of
              None \<Rightarrow> Inr []
            | Some (YString s) \<Rightarrow> Inr s
            | Some _ \<Rightarrow> Inl CommentMustBeString) of
        Inl err \<Rightarrow> Inl err
      | Inr comment \<Rightarrow>
          Inr \<lparr> CfgRecord_Content = content, CfgRecord_Comment = comment,
                CfgRecord_Disabled = disabled \<rparr>)))"

text \<open>The loop of \<^verbatim>\<open>normalizeRecordsList\<close>, from index \<open>i\<close> with the records so far.\<close>

fun normalizeRecordsLoop :: "nat \<Rightarrow> yaml list \<Rightarrow> CfgRecord list \<Rightarrow> recordError + CfgRecord list" where
  "normalizeRecordsLoop i [] records = Inr records"
| "normalizeRecordsLoop i (item # items) records =
     (case item of
        YString r \<Rightarrow>
          normalizeRecordsLoop (i + 1) items
            (records @ [\<lparr> CfgRecord_Content = r, CfgRecord_Comment = [],
                           CfgRecord_Disabled = False \<rparr>])
      | YMap r \<Rightarrow>
          (case parseRecordMap r of
             Inl err \<Rightarrow> Inl (RecordError i err)
           | Inr rec \<Rightarrow> normalizeRecordsLoop (i + 1) items (records @ [rec]))
      | _ \<Rightarrow> Inl (UnsupportedItemType i))"

definition normalizeRecordsList :: "yaml list \<Rightarrow> recordError + CfgRecord list" where
  "normalizeRecordsList items = normalizeRecordsLoop 0 items []"

definition normalizeRecords :: "yaml \<Rightarrow> recordError + CfgRecord list" where
  "normalizeRecords input =
     (case input of
        YNil \<Rightarrow> Inr []
      | YString v \<Rightarrow>
          Inr [\<lparr> CfgRecord_Content = v, CfgRecord_Comment = [], CfgRecord_Disabled = False \<rparr>]
      | YList v \<Rightarrow> normalizeRecordsList v
      | YMap v \<Rightarrow>
          (case parseRecordMap v of Inl err \<Rightarrow> Inl err | Inr rec \<Rightarrow> Inr [rec])
      | _ \<Rightarrow> Inl UnsupportedRecordsType)"

definition NormalizeZone :: "CfgZone \<Rightarrow> CfgZone" where
  "NormalizeZone z = (if CfgZone_Kind z = [] then z\<lparr>CfgZone_Kind := ''Native''\<rparr> else z)"

text \<open>
  \<^verbatim>\<open>NormalizeRRsets\<close> returns the error of the first record set that does not normalise,
  wrapped with the name and the type of that record set.
\<close>

fun normalizeRRsetsLoop :: "RRsetInput list \<Rightarrow> CfgRRset list \<Rightarrow> (string \<times> string \<times> recordError) + CfgRRset list" where
  "normalizeRRsetsLoop [] rrsets = Inr rrsets"
| "normalizeRRsetsLoop (input # inputs) rrsets =
     (case normalizeRecords (RRsetInput_Records input) of
        Inl err \<Rightarrow> Inl (RRsetInput_Name input, RRsetInput_Type input, err)
      | Inr records \<Rightarrow>
          (let ttl = (case RRsetInput_TTL input of None \<Rightarrow> 300 | Some t \<Rightarrow> t)
           in normalizeRRsetsLoop inputs
                (rrsets @ [\<lparr> CfgRRset_Name = RRsetInput_Name input,
                              CfgRRset_Type = ToUpper (RRsetInput_Type input),
                              CfgRRset_Comment = RRsetInput_Comment input,
                              CfgRRset_Records = records,
                              CfgRRset_TTL = ttl \<rparr>])))"

definition NormalizeRRsets :: "CfgZone \<Rightarrow> (string \<times> string \<times> recordError) + CfgRRset list" where
  "NormalizeRRsets z = normalizeRRsetsLoop (CfgZone_RRsets z) []"

text \<open>\<^verbatim>\<open>strings.EqualFold\<close>, on ASCII.\<close>

definition EqualFold :: "string \<Rightarrow> string \<Rightarrow> bool" where
  "EqualFold s t = (ToLower s = ToLower t)"

text \<open>
  The loop of \<^verbatim>\<open>validateRRsets\<close>, from index \<open>i\<close> with the keys seen so far and the
  messages so far. Each \<^verbatim>\<open>continue\<close> of the source is a branch that goes on with the
  next record set.
\<close>

fun validateRRsetsLoop :: "string \<Rightarrow> nat \<Rightarrow> RRsetInput list \<Rightarrow> string list \<Rightarrow> violation list \<Rightarrow> violation list" where
  "validateRRsetsLoop zoneName i [] seenRRsets errs = errs"
| "validateRRsetsLoop zoneName i (rrset # rrsets) seenRRsets errs =
     (let rrsetID = (zoneName, i, RRsetInput_Name rrset, RRsetInput_Type rrset) in
      if EqualFold (RRsetInput_Type rrset) ''NS'' then
        validateRRsetsLoop zoneName (i + 1) rrsets seenRRsets (errs @ [NSInRRsets rrsetID])
      else if EqualFold (RRsetInput_Type rrset) ''SOA'' then
        validateRRsetsLoop zoneName (i + 1) rrsets seenRRsets (errs @ [SOAInRRsets rrsetID])
      else
        (let errs1 = (if RRsetInput_Name rrset = [] then errs @ [NameRequired rrsetID] else errs);
             errs2 = (if RRsetInput_Type rrset = [] then errs1 @ [TypeRequired rrsetID] else errs1);
             key = ToLower (RRsetInput_Name rrset) @ ''/'' @ ToUpper (RRsetInput_Type rrset);
             errs3 = (if key \<in> set seenRRsets then errs2 @ [DuplicateRRset rrsetID] else errs2);
             seenRRsets' = key # seenRRsets
         in case normalizeRecords (RRsetInput_Records rrset) of
              Inl err \<Rightarrow>
                validateRRsetsLoop zoneName (i + 1) rrsets seenRRsets'
                  (errs3 @ [RecordsInvalid rrsetID err])
            | Inr records \<Rightarrow>
                (let errs4 = (if length records = 0 then errs3 @ [NoRecords rrsetID] else errs3);
                     errs5 = errs4 @
                       map (\<lambda>(j, rec). ContentEmpty rrsetID j)
                         (filter (\<lambda>(j, rec). CfgRecord_Content rec = [])
                            (List.enumerate 0 records))
                 in validateRRsetsLoop zoneName (i + 1) rrsets seenRRsets' errs5)))"

definition validateRRsets :: "string \<Rightarrow> RRsetInput list \<Rightarrow> violation list \<Rightarrow> violation list" where
  "validateRRsets zoneName rrsets errs = validateRRsetsLoop zoneName 0 rrsets [] errs"

text \<open>Reading a key that a Go map does not hold gives the zero value.\<close>

definition lookupState :: "(string \<times> ZoneState) list \<Rightarrow> string \<Rightarrow> ZoneState" where
  "lookupState existingZones name =
     (case map_of existingZones name of
        None \<Rightarrow> \<lparr> ZoneState_Exists = False, ZoneState_IsManaged = False \<rparr>
      | Some state \<Rightarrow> state)"

definition validateZone :: "string \<Rightarrow> CfgZone \<Rightarrow> (string \<times> ZoneState) list \<Rightarrow> violation list \<Rightarrow> violation list" where
  "validateZone zoneName zone existingZones errs =
     (let canonicalName = CanonicalZoneName zoneName;
          state = lookupState existingZones canonicalName;
          errs1 = (if \<not> ZoneState_Exists state \<and> length (CfgZone_Nameservers zone) = 0
                   then errs @ [NameserversRequired zoneName] else errs);
          errs2 = (if ZoneState_Exists state \<and> \<not> ZoneState_IsManaged state
                   then errs1 @ [ZoneNotManaged zoneName] else errs1);
          errs3 = errs2 @
            map (\<lambda>(i, ns). NameserverEmpty zoneName i)
              (filter (\<lambda>(i, ns). ns = []) (List.enumerate 0 (CfgZone_Nameservers zone)));
          errs4 =
            (if CfgZone_Kind zone \<noteq> [] \<and>
                \<not> list_ex (\<lambda>k. CfgZone_Kind zone = k)
                    [''Native'', ''Master'', ''Slave'', ''Producer'', ''Consumer'']
             then errs3 @ [InvalidKind zoneName (CfgZone_Kind zone)] else errs3)
      in validateRRsets zoneName (CfgZone_RRsets zone) errs4)"

text \<open>\<^verbatim>\<open>Validate\<close> returns \<^verbatim>\<open>nil\<close> (here \<open>None\<close>) when no message was added.\<close>

definition Validate :: "Config \<Rightarrow> (string \<times> ZoneState) list \<Rightarrow> violation list option" where
  "Validate c existingZones =
     (let errs = fold (\<lambda>(zoneName, zone) errs. validateZone zoneName zone existingZones errs)
                   (Config_Zones c) []
      in if length errs > 0 then Some errs else None)"

section \<open>The reconciliation engine (package manager)\<close>

text \<open>
  The error values of the engine. \<open>ClientError\<close> is any error that the backend client
  returns; every \<^verbatim>\<open>fmt.Errorf("...: %w", err)\<close> of the source is a constructor that
  wraps the error it was given.
\<close>

datatype error =
    ErrAborted
  | ClientError string
  | RRsetNormalizeError string string recordError
  | FailedToCheckZone string error
  | FailedToCreateZone error
  | FailedToPatchZone error
  | ZoneError string error
  | ValidationFailed "violation list"

record ApplyOptions =
  ApplyOptions_DryRun :: bool
  ApplyOptions_AutoConfirm :: bool

text \<open>The counters are Go \<^verbatim>\<open>int\<close>s that only ever count up from zero.\<close>

record ApplyResult =
  ApplyResult_Errors :: "error list"
  ApplyResult_ZonesCreated :: nat
  ApplyResult_RRsetsCreated :: nat
  ApplyResult_RRsetsUpdated :: nat
  ApplyResult_RRsetsDeleted :: nat

text \<open>
  The interface \<^verbatim>\<open>PowerDNSClient\<close>, over a backend state \<open>'s\<close>. \<^verbatim>\<open>GetZone\<close> reads the
  state: \<open>Inr None\<close> is the answer \<^verbatim>\<open>(nil, nil)\<close> for a zone that does not exist.
  \<^verbatim>\<open>CreateZone\<close> and \<^verbatim>\<open>PatchZone\<close> return the state they leave behind.
\<close>

record 's PowerDNSClient =
  CreateZone :: "'s \<Rightarrow> Zone \<Rightarrow> (error + Zone) \<times> 's"
  GetZone :: "'s \<Rightarrow> string \<Rightarrow> error + Zone option"
  PatchZone :: "'s \<Rightarrow> string \<Rightarrow> ZonePatch \<Rightarrow> error option \<times> 's"

text \<open>The logger of the source is left out; \<open>confirmFn\<close> is \<open>None\<close> for a nil function.\<close>

record 's Manager =
  client :: "'s PowerDNSClient"
  confirmFn :: "(string \<Rightarrow> bool) option"
  accountName :: string

text \<open>
  The world that a run acts on: the state of the backend, and the mutating calls that
  were made on the client, in order.
\<close>

datatype call = CreateZoneCall Zone | PatchZoneCall string ZonePatch

record 's world =
  backend :: 's
  calls :: "call list"

subsection \<open>The desired state\<close>

text \<open>
  \<^verbatim>\<open>fmt.Sprintf("%q", s)\<close> is \<^verbatim>\<open>strconv.Quote\<close>. It is modelled byte by byte for
  ASCII; a byte from 0x80 on is written as \<^verbatim>\<open>\xNN\<close>, which is what Go does with bytes
  that are not valid UTF-8 (Go keeps printable non-ASCII runes as they are).
\<close>

definition hexDigit :: "nat \<Rightarrow> char" where
  "hexDigit n = ''0123456789abcdef'' ! (n mod 16)"

definition quoteByte :: "char \<Rightarrow> string" where
  "quoteByte c =
     (let n = (of_char c :: nat) in
      if n = 34 then [CHR 0x5C, CHR 0x22]
      else if n = 92 then [CHR 0x5C, CHR 0x5C]
      else if 32 \<le> n \<and> n < 127 then [c]
      else if n = 7 then [CHR 0x5C, CHR ''a'']
      else if n = 8 then [CHR 0x5C, CHR ''b'']
      else if n = 12 then [CHR 0x5C, CHR ''f'']
      else if n = 10 then [CHR 0x5C, CHR ''n'']
      else if n = 13 then [CHR 0x5C, CHR ''r'']
      else if n = 9 then [CHR 0x5C, CHR ''t'']
      else if n = 11 then [CHR 0x5C, CHR ''v'']
      else [CHR 0x5C, CHR ''x'', hexDigit (n div 16), hexDigit (n mod 16)])"

definition Quote :: "string \<Rightarrow> string" where
  "Quote s = CHR 0x22 # concat (map quoteByte s) @ [CHR 0x22]"

text \<open>The content of one record of the desired state, for a record set of type \<open>t\<close>.\<close>

definition desiredContent :: "string \<Rightarrow> string \<Rightarrow> string" where
  "desiredContent t content =
     (if t = ''TXT'' \<and> \<not> HasPrefix content [CHR 0x22] then Quote content else content)"

definition desiredRecord :: "string \<Rightarrow> CfgRecord \<Rightarrow> Record" where
  "desiredRecord t rec =
     \<lparr> Record_Content = desiredContent t (CfgRecord_Content rec),
       Record_Disabled = CfgRecord_Disabled rec \<rparr>"

text \<open>One turn of the loop over the normalised record sets: a store into the map.\<close>

definition addDesired :: "string \<Rightarrow> CfgRRset \<Rightarrow> (string \<times> RRset) list \<Rightarrow> (string \<times> RRset) list" where
  "addDesired zoneID rrset desired =
     (let fqdn = buildFQDN (CfgRRset_Name rrset) zoneID;
          key = rrsetKey fqdn (CfgRRset_Type rrset);
          records = map (desiredRecord (CfgRRset_Type rrset)) (CfgRRset_Records rrset)
      in AList.update key
           \<lparr> RRset_Name = fqdn, RRset_Type = CfgRRset_Type rrset, RRset_ChangeType = [],
             RRset_Records = records, RRset_Comments = [], RRset_TTL = CfgRRset_TTL rrset \<rparr>
           desired)"

definition nsDesired :: "string \<Rightarrow> CfgZone \<Rightarrow> ZoneState \<Rightarrow> (string \<times> RRset) list" where
  "nsDesired zoneID cfg state =
     (if length (CfgZone_Nameservers cfg) > 0 \<and>
         (ZoneState_IsManaged state \<or> \<not> ZoneState_Exists state)
      then
        [(rrsetKey zoneID ''NS'',
          \<lparr> RRset_Name = zoneID, RRset_Type = ''NS'', RRset_ChangeType = [],
            RRset_Records =
              map (\<lambda>ns. \<lparr> Record_Content = normalizeNameserver ns zoneID,
                            Record_Disabled = False \<rparr>)
                (CfgZone_Nameservers cfg),
            RRset_Comments = [], RRset_TTL = 300 \<rparr>)]
      else [])"

definition buildDesiredRRsets :: "string \<Rightarrow> CfgZone \<Rightarrow> ZoneState \<Rightarrow> error + (string \<times> RRset) list" where
  "buildDesiredRRsets zoneID cfg state =
     (let desired = nsDesired zoneID cfg state in
      case NormalizeRRsets cfg of
        Inl (name, t, err) \<Rightarrow> Inl (RRsetNormalizeError name t err)
      | Inr rrsets \<Rightarrow> Inr (fold (addDesired zoneID) rrsets desired))"

subsection \<open>The diff\<close>

definition indexRRsets :: "RRset list \<Rightarrow> (string \<times> RRset) list" where
  "indexRRsets rrsets =
     fold (\<lambda>rrset m. AList.update (rrsetKey (RRset_Name rrset) (RRset_Type rrset)) rrset m)
       rrsets []"

text \<open>One turn of the loop over the desired record sets.\<close>

definition desiredStep :: "string \<Rightarrow> (string \<times> RRset) list \<Rightarrow> string \<times> RRset \<Rightarrow> RRset list \<times> ApplyResult \<Rightarrow> RRset list \<times> ApplyResult" where
  "desiredStep acct existingByKey kd pr =
     (case kd of (key, desired) \<Rightarrow> case pr of (patchRRsets, result) \<Rightarrow>
      (case map_of existingByKey key of
         None \<Rightarrow>
           (patchRRsets @ [createRRsetPatch acct desired],
            result\<lparr>ApplyResult_RRsetsCreated := ApplyResult_RRsetsCreated result + 1\<rparr>)
       | Some existing \<Rightarrow>
           if isManaged acct existing then
             (if shouldUpdateRRset desired existing then
                (patchRRsets @ [createRRsetPatch acct desired],
                 result\<lparr>ApplyResult_RRsetsUpdated := ApplyResult_RRsetsUpdated result + 1\<rparr>)
              else (patchRRsets, result))
           else (patchRRsets, result)))"

definition deletePatch :: "RRset \<Rightarrow> RRset" where
  "deletePatch existing =
     \<lparr> RRset_Name = RRset_Name existing, RRset_Type = RRset_Type existing,
       RRset_ChangeType = ''DELETE'', RRset_Records = [], RRset_Comments = [],
       RRset_TTL = 0 \<rparr>"

text \<open>One turn of the loop over the existing record sets, which finds the orphans.\<close>

definition orphanStep :: "string \<Rightarrow> (string \<times> RRset) list \<Rightarrow> string \<times> RRset \<Rightarrow> RRset list \<times> ApplyResult \<Rightarrow> RRset list \<times> ApplyResult" where
  "orphanStep acct desiredRRsets ke pr =
     (case ke of (key, existing) \<Rightarrow> case pr of (patchRRsets, result) \<Rightarrow>
      if isManaged acct existing then
        (if map_of desiredRRsets key = None then
           (patchRRsets @ [deletePatch existing],
            result\<lparr>ApplyResult_RRsetsDeleted := ApplyResult_RRsetsDeleted result + 1\<rparr>)
         else (patchRRsets, result))
      else (patchRRsets, result))"

text \<open>
  The part of \<^verbatim>\<open>applyRRsets\<close> between the indexing of the existing record sets and the
  call of \<^verbatim>\<open>sendPatch\<close>: both loops, from an empty patch.
\<close>

definition diffRRsets :: "string \<Rightarrow> (string \<times> RRset) list \<Rightarrow> (string \<times> RRset) list \<Rightarrow> ApplyResult \<Rightarrow> RRset list \<times> ApplyResult" where
  "diffRRsets acct desiredRRsets existingByKey result =
     fold (orphanStep acct desiredRRsets) existingByKey
       (fold (desiredStep acct existingByKey) desiredRRsets ([], result))"

subsection \<open>Sending the patch\<close>

definition sendPatch :: "'s Manager \<Rightarrow> string \<Rightarrow> RRset list \<Rightarrow> ApplyOptions \<Rightarrow> 's world \<Rightarrow> error option \<times> 's world" where
  "sendPatch m zoneID patchRRsets opts w =
     (if length patchRRsets = 0 then (None, w)
      else if ApplyOptions_DryRun opts then (None, w)
      else if \<not> ApplyOptions_AutoConfirm opts \<and>
              (case confirmFn m of None \<Rightarrow> False | Some f \<Rightarrow> \<not> f ''Apply these changes?'')
        then (Some ErrAborted, w)
      else
        (let patch = \<lparr> ZonePatch_RRsets = patchRRsets \<rparr> in
         case PatchZone (client m) (backend w) zoneID patch of
           (res, s') \<Rightarrow>
             (let w' = \<lparr> backend = s', calls = calls w @ [PatchZoneCall zoneID patch] \<rparr> in
              case res of
                Some err \<Rightarrow> (Some (FailedToPatchZone err), w')
              | None \<Rightarrow> (None, w'))))"

subsection \<open>One zone\<close>

text \<open>
  \<^verbatim>\<open>applyRRsets\<close> reads \<^verbatim>\<open>existingZone.RRsets\<close> once the desired state is built; with
  a nil \<^verbatim>\<open>existingZone\<close> that read panics, which is the result \<open>None\<close> here.
\<close>

definition applyRRsets :: "'s Manager \<Rightarrow> string \<Rightarrow> CfgZone \<Rightarrow> Zone option \<Rightarrow> ZoneState \<Rightarrow> ApplyOptions \<Rightarrow> 's world \<Rightarrow> ApplyResult \<Rightarrow> (error option \<times> 's world \<times> ApplyResult) option" where
  "applyRRsets m zoneID cfg existingZone state opts w result =
     (case buildDesiredRRsets zoneID cfg state of
        Inl err \<Rightarrow> Some (Some err, w, result)
      | Inr desiredRRsets \<Rightarrow>
          (case existingZone of
             None \<Rightarrow> None
           | Some zone \<Rightarrow>
               (let existingByKey = indexRRsets (Zone_RRsets zone) in
                case diffRRsets (accountName m) desiredRRsets existingByKey result of
                  (patchRRsets, result') \<Rightarrow>
                    (case sendPatch m zoneID patchRRsets opts w of
                       (err, w') \<Rightarrow> Some (err, w', result')))))"

definition newZone :: "'s Manager \<Rightarrow> string \<Rightarrow> CfgZone \<Rightarrow> Zone" where
  "newZone m zoneID zoneConfig =
     \<lparr> Zone_ID = [], Zone_Name = zoneID, Zone_Type = [], Zone_Kind = CfgZone_Kind zoneConfig,
       Zone_Account = accountName m, Zone_Masters = [],
       Zone_Nameservers = normalizeNameservers (CfgZone_Nameservers zoneConfig) zoneID,
       Zone_RRsets = [] \<rparr>"

definition mockZone :: "string \<Rightarrow> Zone" where
  "mockZone zoneID =
     \<lparr> Zone_ID = [], Zone_Name = zoneID, Zone_Type = [], Zone_Kind = [], Zone_Account = [],
       Zone_Masters = [], Zone_Nameservers = [], Zone_RRsets = [] \<rparr>"

definition applyZone :: "'s Manager \<Rightarrow> string \<Rightarrow> CfgZone \<Rightarrow> ZoneState \<Rightarrow> Zone option \<Rightarrow> ApplyOptions \<Rightarrow> 's world \<Rightarrow> ApplyResult \<Rightarrow> (error option \<times> 's world \<times> ApplyResult) option" where
  "applyZone m zoneID zoneConfig state existingZone opts w result =
     (if \<not> ZoneState_Exists state then
        (if \<not> ApplyOptions_DryRun opts then
           (let zone = newZone m zoneID zoneConfig in
            case CreateZone (client m) (backend w) zone of
              (res, s') \<Rightarrow>
                (let w' = \<lparr> backend = s', calls = calls w @ [CreateZoneCall zone] \<rparr> in
                 case res of
                   Inl err \<Rightarrow> Some (Some (FailedToCreateZone err), w', result)
                 | Inr created \<Rightarrow>
                     applyRRsets m zoneID zoneConfig (Some created) state opts w'
                       (result\<lparr>ApplyResult_ZonesCreated := ApplyResult_ZonesCreated result + 1\<rparr>)))
         else
           applyRRsets m zoneID zoneConfig (Some (mockZone zoneID)) state opts w
             (result\<lparr>ApplyResult_ZonesCreated := ApplyResult_ZonesCreated result + 1\<rparr>))
      else applyRRsets m zoneID zoneConfig existingZone state opts w result)"

subsection \<open>The whole run\<close>

text \<open>Step 1 of \<^verbatim>\<open>Apply\<close>: the loop that fetches the zones of the configuration.\<close>

fun fetchZones :: "'s Manager \<Rightarrow> 's \<Rightarrow> string list \<Rightarrow> (string \<times> ZoneState) list \<times> (string \<times> Zone) list \<Rightarrow> error + (string \<times> ZoneState) list \<times> (string \<times> Zone) list" where
  "fetchZones m s [] maps = Inr maps"
| "fetchZones m s (zoneName # rest) maps =
     (case maps of (existingZones, zoneData) \<Rightarrow>
      (let canonicalName = CanonicalZoneName zoneName in
       case GetZone (client m) s canonicalName of
         Inl err \<Rightarrow> Inl (FailedToCheckZone zoneName err)
       | Inr (Some zone) \<Rightarrow>
           fetchZones m s rest
             (AList.update canonicalName
                \<lparr> ZoneState_Exists = True,
                  ZoneState_IsManaged = (Zone_Account zone = accountName m) \<rparr> existingZones,
              AList.update canonicalName zone zoneData)
       | Inr None \<Rightarrow>
           fetchZones m s rest
             (AList.update canonicalName
                \<lparr> ZoneState_Exists = False, ZoneState_IsManaged = False \<rparr> existingZones,
              zoneData)))"

text \<open>
  Step 3 of \<^verbatim>\<open>Apply\<close>: the loop that applies the zones. An error of \<^verbatim>\<open>applyZone\<close> is
  appended to the errors of the result and the loop goes on; a panic ends the run.
\<close>

fun applyZones :: "'s Manager \<Rightarrow> ApplyOptions \<Rightarrow> (string \<times> ZoneState) list \<Rightarrow> (string \<times> Zone) list \<Rightarrow> (string \<times> CfgZone) list \<Rightarrow> 's world \<Rightarrow> ApplyResult \<Rightarrow> ('s world \<times> ApplyResult) option" where
  "applyZones m opts existingZones zoneData [] w result = Some (w, result)"
| "applyZones m opts existingZones zoneData (z # rest) w result =
     (case z of (zoneName, zoneConfig) \<Rightarrow>
      (let canonicalName = CanonicalZoneName zoneName;
           state = lookupState existingZones canonicalName
       in case applyZone m canonicalName (NormalizeZone zoneConfig) state
                 (map_of zoneData canonicalName) opts w result of
            None \<Rightarrow> None
          | Some (None, w', result') \<Rightarrow>
              applyZones m opts existingZones zoneData rest w' result'
          | Some (Some err, w', result') \<Rightarrow>
              applyZones m opts existingZones zoneData rest w'
                (result'\<lparr>ApplyResult_Errors :=
                   ApplyResult_Errors result' @ [ZoneError zoneName err]\<rparr>)))"

definition emptyResult :: ApplyResult where
  "emptyResult =
     \<lparr> ApplyResult_Errors = [], ApplyResult_ZonesCreated = 0, ApplyResult_RRsetsCreated = 0,
       ApplyResult_RRsetsUpdated = 0, ApplyResult_RRsetsDeleted = 0 \<rparr>"

text \<open>
  \<^verbatim>\<open>Apply\<close> returns \<open>Inl\<close> for \<^verbatim>\<open>(nil, err)\<close> and \<open>Inr\<close> for \<^verbatim>\<open>(result, nil)\<close>, with the
  world it leaves; \<open>None\<close> is a panic.
\<close>

definition Apply :: "'s Manager \<Rightarrow> Config \<Rightarrow> ApplyOptions \<Rightarrow> 's world \<Rightarrow> ((error + ApplyResult) \<times> 's world) option" where
  "Apply m cfg opts w =
     (case fetchZones m (backend w) (map fst (Config_Zones cfg)) ([], []) of
        Inl err \<Rightarrow> Some (Inl err, w)
      | Inr (existingZones, zoneData) \<Rightarrow>
          (case Validate cfg existingZones of
             Some errs \<Rightarrow> Some (Inl (ValidationFailed errs), w)
           | None \<Rightarrow>
               (case applyZones m opts existingZones zoneData (Config_Zones cfg) w emptyResult of
                  None \<Rightarrow> None
                | Some (w', result) \<Rightarrow> Some (Inr result, w'))))"

subsection \<open>The client of the tests\<close>

text \<open>
  \<^verbatim>\<open>MockClient\<close> of the manager's tests: zones by name, an error to return from each
  method when it is set, and the patches that were accepted.
\<close>

record MockClient =
  zones :: "(string \<times> Zone) list"
  createZoneErr :: "error option"
  getZoneErr :: "error option"
  patchZoneErr :: "error option"
  patchCalls :: "ZonePatch list"

definition NewMockClient :: MockClient where
  "NewMockClient =
     \<lparr> zones = [], createZoneErr = None, getZoneErr = None, patchZoneErr = None,
       patchCalls = [] \<rparr>"

definition mockClient :: "MockClient PowerDNSClient" where
  "mockClient =
     \<lparr> CreateZone = (\<lambda>s zone.
         case createZoneErr s of
           Some err \<Rightarrow> (Inl err, s)
         | None \<Rightarrow> (Inr zone, s\<lparr>zones := AList.update (Zone_Name zone) zone (zones s)\<rparr>)),
       GetZone = (\<lambda>s zoneID.
         case getZoneErr s of
           Some err \<Rightarrow> Inl err
         | None \<Rightarrow> Inr (map_of (zones s) zoneID)),
       PatchZone = (\<lambda>s zoneID patch.
         case patchZoneErr s of
           Some err \<Rightarrow> (Some err, s)
         | None \<Rightarrow> (None, s\<lparr>patchCalls := patchCalls s @ [patch]\<rparr>)) \<rparr>"

definition NewManager :: "'s PowerDNSClient \<Rightarrow> string \<Rightarrow> 's Manager" where
  "NewManager c acct = \<lparr> client = c, confirmFn = None, accountName = acct \<rparr>"

definition SetConfirmFunc :: "'s Manager \<Rightarrow> (string \<Rightarrow> bool) \<Rightarrow> 's Manager" where
  "SetConfirmFunc m fn = m\<lparr>confirmFn := Some fn\<rparr>"

subsection \<open>Notions of the specification\<close>

text \<open>The pair of a record that the comparison of record sets is about.\<close>

definition recordPair :: "Record \<Rightarrow> string \<times> bool" where
  "recordPair r = (Record_Content r, Record_Disabled r)"

section \<open>Auxiliary notions and example data\<close>

text \<open>
  Predicates that the statements below use, and concrete record sets, configurations and
  backends on which the theorems are run.
\<close>

definition rec_1 :: Record where
  "rec_1 = \<lparr> Record_Content = ''1.1.1.1'', Record_Disabled = False \<rparr>"

definition rec_2 :: Record where
  "rec_2 = \<lparr> Record_Content = ''2.2.2.2'', Record_Disabled = True \<rparr>"

definition managedComment :: Comment where
  "managedComment = \<lparr> Comment_Content = ''Managed'', Comment_Account = ''zone-manager'' \<rparr>"

definition otherComment :: Comment where
  "otherComment = \<lparr> Comment_Content = ''Manual record'', Comment_Account = ''other-account'' \<rparr>"

definition rrset_www :: "Record list \<Rightarrow> Comment list \<Rightarrow> 32 word \<Rightarrow> RRset" where
  "rrset_www records comments ttl =
     \<lparr> RRset_Name = ''www.example.com.'', RRset_Type = ''A'', RRset_ChangeType = [],
       RRset_Records = records, RRset_Comments = comments, RRset_TTL = ttl \<rparr>"

definition isCreate :: "(string \<times> RRset) list \<Rightarrow> string \<times> RRset \<Rightarrow> bool" where
  "isCreate existingByKey kd = (map_of existingByKey (fst kd) = None)"

definition isUpdate :: "string \<Rightarrow> (string \<times> RRset) list \<Rightarrow> string \<times> RRset \<Rightarrow> bool" where
  "isUpdate acct existingByKey kd =
     (case map_of existingByKey (fst kd) of
        None \<Rightarrow> False
      | Some existing \<Rightarrow> isManaged acct existing \<and> shouldUpdateRRset (snd kd) existing)"

definition isOrphan :: "string \<Rightarrow> (string \<times> RRset) list \<Rightarrow> string \<times> RRset \<Rightarrow> bool" where
  "isOrphan acct desiredRRsets ke =
     (isManaged acct (snd ke) \<and> map_of desiredRRsets (fst ke) = None)"

definition addCounts :: "nat \<Rightarrow> nat \<Rightarrow> nat \<Rightarrow> ApplyResult \<Rightarrow> ApplyResult" where
  "addCounts c u d result =
     result\<lparr> ApplyResult_RRsetsCreated := ApplyResult_RRsetsCreated result + c,
             ApplyResult_RRsetsUpdated := ApplyResult_RRsetsUpdated result + u,
             ApplyResult_RRsetsDeleted := ApplyResult_RRsetsDeleted result + d \<rparr>"

definition keyed :: "(string \<times> RRset) list \<Rightarrow> bool" where
  "keyed al = (distinct (map fst al) \<and>
     (\<forall>kr \<in> set al. fst kr = rrsetKey (RRset_Name (snd kr)) (RRset_Type (snd kr))))"

definition patchKey :: "RRset \<Rightarrow> string" where
  "patchKey p = rrsetKey (RRset_Name p) (RRset_Type p)"

definition managedBy :: "string \<Rightarrow> Comment" where
  "managedBy acct = \<lparr> Comment_Content = ''Managed by zone-manager'', Comment_Account = acct \<rparr>"

definition rrset_A :: "string \<Rightarrow> string \<Rightarrow> Comment list \<Rightarrow> RRset" where
  "rrset_A name content comments =
     \<lparr> RRset_Name = name, RRset_Type = ''A'', RRset_ChangeType = [],
       RRset_Records = [\<lparr> Record_Content = content, Record_Disabled = False \<rparr>],
       RRset_Comments = comments, RRset_TTL = 300 \<rparr>"

definition input_rrset :: "string \<Rightarrow> string \<Rightarrow> yaml \<Rightarrow> RRsetInput" where
  "input_rrset name t records =
     \<lparr> RRsetInput_Name = name, RRsetInput_Type = t, RRsetInput_Records = records,
       RRsetInput_TTL = None, RRsetInput_Comment = [] \<rparr>"

definition ex_rrsets :: "RRset list" where
  "ex_rrsets =
     [rrset_A ''manual.example.com.'' ''192.168.1.99'' [otherComment],
      rrset_A ''www.example.com.'' ''9.9.9.9'' [],
      rrset_A ''old.example.com.'' ''192.168.1.98'' [managedComment],
      rrset_A ''mail.example.com.'' ''192.168.1.97'' [otherComment, managedComment]]"

definition ex_zoneCfg :: CfgZone where
  "ex_zoneCfg =
     \<lparr> CfgZone_Kind = [], CfgZone_Nameservers = [''ns1''],
       CfgZone_RRsets =
         [input_rrset ''www'' ''A'' (YString ''192.168.1.1''),
          input_rrset ''mail'' ''a'' (YList [YString ''1.1.1.1'']),
          input_rrset ''@'' ''txt'' (YMap [(''content'', YString ''hello world'')])] \<rparr>"

definition ex_managed :: ZoneState where
  "ex_managed = \<lparr> ZoneState_Exists = True, ZoneState_IsManaged = True \<rparr>"

definition ex_desired :: "(string \<times> RRset) list" where
  "ex_desired =
     (case buildDesiredRRsets ''example.com.'' ex_zoneCfg ex_managed of
        Inl err \<Rightarrow> [] | Inr desired \<Rightarrow> desired)"

definition violations :: "Config \<Rightarrow> (string \<times> ZoneState) list \<Rightarrow> violation list" where
  "violations c existingZones = (case Validate c existingZones of None \<Rightarrow> [] | Some errs \<Rightarrow> errs)"





definition cfg_no_ns :: Config where
  "cfg_no_ns =
     \<lparr> Config_Zones =
         [(''example.com'',
           \<lparr> CfgZone_Kind = [], CfgZone_Nameservers = [],
             CfgZone_RRsets = [input_rrset ''www'' ''A'' (YString ''192.168.1.1'')] \<rparr>)] \<rparr>"

definition counters :: "ApplyResult \<Rightarrow> nat \<times> nat \<times> nat \<times> nat" where
  "counters result =
     (ApplyResult_ZonesCreated result, ApplyResult_RRsetsCreated result,
      ApplyResult_RRsetsUpdated result, ApplyResult_RRsetsDeleted result)"


definition planRRsets :: "string \<Rightarrow> string \<Rightarrow> CfgZone \<Rightarrow> ZoneState \<Rightarrow> RRset list \<Rightarrow> ApplyResult \<Rightarrow> ApplyResult" where
  "planRRsets acct zoneID cfg state rrsets result =
     (case buildDesiredRRsets zoneID cfg state of
        Inl err \<Rightarrow> result
      | Inr desiredRRsets \<Rightarrow> snd (diffRRsets acct desiredRRsets (indexRRsets rrsets) result))"

definition fetched :: "(string \<times> ZoneState) list \<Rightarrow> (string \<times> Zone) list \<Rightarrow> bool" where
  "fetched existingZones zoneData =
     (\<forall>name. ZoneState_Exists (lookupState existingZones name) \<longrightarrow> map_of zoneData name \<noteq> None)"

definition outcomeCounters :: "((error + ApplyResult) \<times> 's world) option \<Rightarrow> (error + nat \<times> nat \<times> nat \<times> nat) option" where
  "outcomeCounters x =
     map_option (\<lambda>out. case fst out of Inl err \<Rightarrow> Inl err | Inr result \<Rightarrow> Inr (counters result)) x"

definition mgr :: "MockClient Manager" where
  "mgr = NewManager mockClient ''zone-manager''"

definition mgr_declining :: "MockClient Manager" where
  "mgr_declining = SetConfirmFunc mgr (\<lambda>prompt. False)"

definition opts_real :: ApplyOptions where
  "opts_real = \<lparr> ApplyOptions_DryRun = False, ApplyOptions_AutoConfirm = False \<rparr>"

definition opts_dry :: ApplyOptions where
  "opts_dry = \<lparr> ApplyOptions_DryRun = True, ApplyOptions_AutoConfirm = False \<rparr>"

definition boom :: error where
  "boom = ClientError ''connection refused''"

definition cfg_new :: Config where
  "cfg_new =
     \<lparr> Config_Zones =
         [(''example.com'',
           \<lparr> CfgZone_Kind = ''Native'', CfgZone_Nameservers = [''ns1.example.com.''],
             CfgZone_RRsets = [input_rrset ''www'' ''A'' (YString ''192.168.1.1'')] \<rparr>)] \<rparr>"

definition w_empty :: "MockClient world" where
  "w_empty = \<lparr> backend = NewMockClient, calls = [] \<rparr>"


definition w_getErr :: "MockClient world" where
  "w_getErr = \<lparr> backend = NewMockClient\<lparr>getZoneErr := Some boom\<rparr>, calls = [] \<rparr>"


definition zone_example :: Zone where
  "zone_example =
     \<lparr> Zone_ID = [], Zone_Name = ''example.com.'', Zone_Type = [], Zone_Kind = ''Native'',
       Zone_Account = ''zone-manager'', Zone_Masters = [], Zone_Nameservers = [],
       Zone_RRsets = ex_rrsets \<rparr>"



definition cfg_two :: Config where
  "cfg_two =
     \<lparr> Config_Zones =
         [(''a.com'',
           \<lparr> CfgZone_Kind = [], CfgZone_Nameservers = [''ns1.a.com.''], CfgZone_RRsets = [] \<rparr>),
          (''b.com'',
           \<lparr> CfgZone_Kind = [], CfgZone_Nameservers = [],
             CfgZone_RRsets = [input_rrset ''www'' ''A'' (YString ''192.168.1.1'')] \<rparr>)] \<rparr>"

definition zone_b :: Zone where
  "zone_b =
     \<lparr> Zone_ID = [], Zone_Name = ''b.com.'', Zone_Type = [], Zone_Kind = ''Native'',
       Zone_Account = ''zone-manager'', Zone_Masters = [], Zone_Nameservers = [],
       Zone_RRsets = [] \<rparr>"

definition w_two :: "MockClient world" where
  "w_two =
     \<lparr> backend = NewMockClient\<lparr>zones := [(''b.com.'', zone_b)], createZoneErr := Some boom\<rparr>,
       calls = [] \<rparr>"

definition fetched_two :: "(string \<times> ZoneState) list \<times> (string \<times> Zone) list" where
  "fetched_two =
     ([(''a.com.'', \<lparr> ZoneState_Exists = False, ZoneState_IsManaged = False \<rparr>),
       (''b.com.'', \<lparr> ZoneState_Exists = True, ZoneState_IsManaged = True \<rparr>)],
      [(''b.com.'', zone_b)])"

definition patch_b :: ZonePatch where
  "patch_b =
     \<lparr> ZonePatch_RRsets =
         [createRRsetPatch ''zone-manager'' (rrset_A ''www.b.com.'' ''192.168.1.1'' [])] \<rparr>"

text \<open>
  What an accepted patch leaves in a zone, read through the keys of its record sets:
  \<open>old\<close> and \<open>new\<close> are the record sets of the zone by key before and after. A
  DELETE entry is gone, a REPLACE entry is stored with its records (in any order), its
  TTL and its comments, and a key that the patch does not name is as it was.
\<close>

definition patchApplied :: "RRset list \<Rightarrow> (string \<rightharpoonup> RRset) \<Rightarrow> (string \<rightharpoonup> RRset) \<Rightarrow> bool" where
  "patchApplied patchRRsets old new =
     ((\<forall>e \<in> set patchRRsets.
         (RRset_ChangeType e = ''DELETE'' \<longrightarrow> new (patchKey e) = None) \<and>
         (RRset_ChangeType e = ''REPLACE'' \<longrightarrow>
            (\<exists>r. new (patchKey e) = Some r \<and> mset (RRset_Records r) = mset (RRset_Records e) \<and>
                 RRset_TTL r = RRset_TTL e \<and> RRset_Comments r = RRset_Comments e)))
      \<and> (\<forall>key. key \<notin> patchKey ` set patchRRsets \<longrightarrow> new key = old key))"

text \<open>
  A backend that keeps what it is given. A zone that \<^verbatim>\<open>CreateZone\<close> returns is the
  zone that \<^verbatim>\<open>GetZone\<close> answers from then on, under the account that was asked for.
  A patch with pairwise distinct keys that \<^verbatim>\<open>PatchZone\<close> accepts for a zone is applied
  to that zone, which keeps its account. Neither call touches another zone.
\<close>

definition faithfulBackend :: "'s PowerDNSClient \<Rightarrow> bool" where
  "faithfulBackend c =
     ((\<forall>s zone created s'.
         CreateZone c s zone = (Inr created, s') \<longrightarrow>
           GetZone c s' (Zone_Name zone) = Inr (Some created) \<and>
           Zone_Account created = Zone_Account zone \<and>
           (\<forall>name. name \<noteq> Zone_Name zone \<longrightarrow> GetZone c s' name = GetZone c s name))
      \<and> (\<forall>s zoneID patch s' zone.
         PatchZone c s zoneID patch = (None, s') \<and> GetZone c s zoneID = Inr (Some zone) \<and>
         distinct (map patchKey (ZonePatch_RRsets patch)) \<longrightarrow>
           (\<exists>zone'. GetZone c s' zoneID = Inr (Some zone') \<and>
                    Zone_Account zone' = Zone_Account zone \<and>
                    patchApplied (ZonePatch_RRsets patch)
                      (map_of (indexRRsets (Zone_RRsets zone)))
                      (map_of (indexRRsets (Zone_RRsets zone')))) \<and>
           (\<forall>name. name \<noteq> zoneID \<longrightarrow> GetZone c s' name = GetZone c s name)))"

text \<open>The state recorded for a zone that exists under the manager's account.\<close>

definition managedState :: ZoneState where
  "managedState = \<lparr> ZoneState_Exists = True, ZoneState_IsManaged = True \<rparr>"

text \<open>
  The maps of step 1 of \<^verbatim>\<open>Apply\<close> hold, for a canonical name, what \<^verbatim>\<open>GetZone\<close>
  answers in the backend state \<open>s\<close>.
\<close>

definition snapshot :: "'s Manager \<Rightarrow> 's \<Rightarrow> (string \<times> ZoneState) list \<Rightarrow> (string \<times> Zone) list \<Rightarrow> string \<Rightarrow> bool" where
  "snapshot m s existingZones zoneData canonicalName =
     (case GetZone (client m) s canonicalName of
        Inl err \<Rightarrow> False
      | Inr None \<Rightarrow>
          lookupState existingZones canonicalName =
            \<lparr> ZoneState_Exists = False, ZoneState_IsManaged = False \<rparr>
      | Inr (Some zone) \<Rightarrow>
          lookupState existingZones canonicalName =
            \<lparr> ZoneState_Exists = True,
              ZoneState_IsManaged = (Zone_Account zone = accountName m) \<rparr> \<and>
          map_of zoneData canonicalName = Some zone)"

text \<open>
  A zone is settled in a backend state when it exists there under the manager's account
  and the diff of its configuration against its record sets is empty.
\<close>

definition settled :: "'s Manager \<Rightarrow> 's \<Rightarrow> string \<Rightarrow> CfgZone \<Rightarrow> bool" where
  "settled m s zoneID cfg =
     (\<exists>zone desiredRRsets.
        GetZone (client m) s zoneID = Inr (Some zone) \<and>
        Zone_Account zone = accountName m \<and>
        buildDesiredRRsets zoneID cfg managedState = Inr desiredRRsets \<and>
        (\<forall>result. diffRRsets (accountName m) desiredRRsets (indexRRsets (Zone_RRsets zone)) result
                    = ([], result)))"

text \<open>Two runs in succession: the second starts from the world that the first left.\<close>

definition secondRun :: "'s Manager \<Rightarrow> Config \<Rightarrow> ApplyOptions \<Rightarrow> 's world \<Rightarrow> ((error + ApplyResult) \<times> 's world) option" where
  "secondRun m cfg opts w =
     (case Apply m cfg opts w of
        None \<Rightarrow> None
      | Some (out, w') \<Rightarrow> Apply m cfg opts w')"

text \<open>The errors of a run: the fatal error, or the errors recorded in the result.\<close>

definition outcomeErrors :: "((error + ApplyResult) \<times> 's world) option \<Rightarrow> error list option" where
  "outcomeErrors x =
     map_option (\<lambda>out. case fst out of Inl err \<Rightarrow> [err] | Inr result \<Rightarrow> ApplyResult_Errors result) x"

text \<open>
  A backend in memory, for running the engine against changes that take effect; it is
  not part of the repository. The state holds the zones by name. \<^verbatim>\<open>CreateZone\<close>
  refuses a name that is taken and stores the zone otherwise; \<^verbatim>\<open>PatchZone\<close> applies the
  entries of the patch in order, each one removing the record set of its key and, unless
  it is a DELETE, storing the entry in its place.
\<close>

definition applyEntry :: "RRset \<Rightarrow> RRset list \<Rightarrow> RRset list" where
  "applyEntry e rrsets =
     (let rest = filter (\<lambda>r. patchKey r \<noteq> patchKey e) rrsets in
      if RRset_ChangeType e = ''DELETE'' then rest
      else rest @ [e\<lparr>RRset_ChangeType := []\<rparr>])"

definition storeClient :: "(string \<times> Zone) list PowerDNSClient" where
  "storeClient =
     \<lparr> CreateZone = (\<lambda>s zone.
         case map_of s (Zone_Name zone) of
           Some existing \<Rightarrow> (Inl (ClientError ''Conflict''), s)
         | None \<Rightarrow> (Inr zone, AList.update (Zone_Name zone) zone s)),
       GetZone = (\<lambda>s zoneID. Inr (map_of s zoneID)),
       PatchZone = (\<lambda>s zoneID patch.
         case map_of s zoneID of
           None \<Rightarrow> (Some (ClientError ''Not Found''), s)
         | Some zone \<Rightarrow>
             (None,
              AList.update zoneID
                (zone\<lparr>Zone_RRsets := fold applyEntry (ZonePatch_RRsets patch) (Zone_RRsets zone)\<rparr>)
                s)) \<rparr>"

definition storeMgr :: "(string \<times> Zone) list Manager" where
  "storeMgr = NewManager storeClient ''zone-manager''"

text \<open>
  A configuration of one zone that exists, with record sets to create, update, delete
  and leave alone, and one zone to create.
\<close>

definition cfg_store :: Config where
  "cfg_store =
     \<lparr> Config_Zones =
         [(''example.com'', ex_zoneCfg),
          (''new.org'',
           \<lparr> CfgZone_Kind = [], CfgZone_Nameservers = [''ns1.new.org.''],
             CfgZone_RRsets = [input_rrset ''www'' ''A'' (YString ''192.168.1.1'')] \<rparr>)] \<rparr>"

definition w_store :: "(string \<times> Zone) list world" where
  "w_store = \<lparr> backend = [(''example.com.'', zone_example)], calls = [] \<rparr>"

text \<open>Two zone names of the configuration with the same canonical name.\<close>

definition cfg_dup :: Config where
  "cfg_dup =
     \<lparr> Config_Zones =
         [(''example.com'',
           \<lparr> CfgZone_Kind = [], CfgZone_Nameservers = [],
             CfgZone_RRsets = [input_rrset ''www'' ''A'' (YString ''192.168.1.1'')] \<rparr>),
          (''example.com.'',
           \<lparr> CfgZone_Kind = [], CfgZone_Nameservers = [],
             CfgZone_RRsets = [input_rrset ''mail'' ''A'' (YString ''192.168.1.2'')] \<rparr>)] \<rparr>"

definition w_dup :: "(string \<times> Zone) list world" where
  "w_dup = \<lparr> backend = [(''example.com.'', zone_example\<lparr>Zone_RRsets := []\<rparr>)], calls = [] \<rparr>"

section \<open>The update test\<close>

lemma fmt_bool_no_bar: "CHR ''|'' \<notin> set (fmt_bool b)"
  by (simp add: fmt_bool_def)

lemma fmt_bool_inj: "fmt_bool a = fmt_bool b \<longleftrightarrow> a = b"
  by (simp add: fmt_bool_def)

lemma split_at_last_bar:
  assumes "a @ CHR ''|'' # x = b @ CHR ''|'' # y" "CHR ''|'' \<notin> set x" "CHR ''|'' \<notin> set y"
  shows "a = b \<and> x = y"
  using assms
proof (induction a arbitrary: b)
  case Nil
  then show ?case by (cases b) auto
next
  case (Cons c a)
  then show ?case by (cases b) auto
qed

lemma recordString_inj:
  "recordString r = recordString r' \<longleftrightarrow>
     Record_Content r = Record_Content r' \<and> Record_Disabled r = Record_Disabled r'"
  using split_at_last_bar [of "Record_Content r" "fmt_bool (Record_Disabled r)"
      "Record_Content r'" "fmt_bool (Record_Disabled r')"]
  by (auto simp: recordString_def fmt_bool_no_bar fmt_bool_inj)

lemma list_ex_nth_neq:
  assumes len: "length xs = length ys"
  shows "list_ex (\<lambda>i. xs ! i \<noteq> ys ! i) [0 ..< length xs] \<longleftrightarrow> xs \<noteq> ys"
proof -
  have "list_ex (\<lambda>i. xs ! i \<noteq> ys ! i) [0 ..< length xs] \<longleftrightarrow> (\<exists>i<length xs. xs ! i \<noteq> ys ! i)"
    unfolding list_ex_iff by auto
  also have "\<dots> \<longleftrightarrow> xs \<noteq> ys"
    using len by (subst list_eq_iff_nth_eq) blast
  finally show ?thesis .
qed

lemma sort_eq_iff_mset: "sort xs = sort ys \<longleftrightarrow> mset xs = mset ys" for xs :: "string list"
proof
  assume "sort xs = sort ys"
  then have "mset (sort xs) = mset (sort ys)" by simp
  then show "mset xs = mset ys" by simp
next
  assume "mset xs = mset ys"
  then show "sort xs = sort ys"
    by (simp add: properties_for_sort)
qed

lemma image_mset_inj_eq:
  assumes "inj f"
  shows "image_mset f A = image_mset f B \<longleftrightarrow> A = B"
proof
  assume "image_mset f A = image_mset f B"
  then show "A = B"
    using multiset.inj_map_strong [of A B f f] assms by (auto dest: injD)
qed simp

lemma inj_recordString: "inj recordString"
  by (rule injI) (simp add: recordString_inj)

lemma inj_recordPair: "inj recordPair"
  by (rule injI) (simp add: recordPair_def)

lemma sorted_recordStrings_eq_iff:
  "sort (map recordString xs) = sort (map recordString ys) \<longleftrightarrow>
   mset (map recordPair xs) = mset (map recordPair ys)"
  by (simp add: sort_eq_iff_mset image_mset_inj_eq inj_recordString inj_recordPair)

lemma shouldUpdateRRset_iff:
  "shouldUpdateRRset desired existing \<longleftrightarrow>
     RRset_TTL desired \<noteq> RRset_TTL existing \<or>
     length (RRset_Records desired) \<noteq> length (RRset_Records existing) \<or>
     mset (map recordPair (RRset_Records desired)) \<noteq>
       mset (map recordPair (RRset_Records existing))"
proof -
  let ?d = "sort (map recordString (RRset_Records desired))"
  let ?e = "sort (map recordString (RRset_Records existing))"
  have "list_ex (\<lambda>i. ?d ! i \<noteq> ?e ! i) [0 ..< length ?d] \<longleftrightarrow> ?d \<noteq> ?e"
    if "length (RRset_Records desired) = length (RRset_Records existing)"
    using that by (intro list_ex_nth_neq) simp
  then show ?thesis
    unfolding shouldUpdateRRset_def Let_def sorted_recordStrings_eq_iff [symmetric]
    by auto
qed

text \<open>
  Claim C4. An update is due exactly when the TTLs differ, the numbers of records differ,
  or the multisets of (content, disabled) pairs differ. So a desired record set whose
  records are those of another in a different order gives the same answer, and the
  comments of either record set play no part.
\<close>

theorem update_iff_ttl_count_or_pairs_differ:
  "(shouldUpdateRRset desired existing \<longleftrightarrow>
      RRset_TTL desired \<noteq> RRset_TTL existing \<or>
      length (RRset_Records desired) \<noteq> length (RRset_Records existing) \<or>
      mset (map recordPair (RRset_Records desired)) \<noteq>
        mset (map recordPair (RRset_Records existing)))
   \<and> (mset (RRset_Records desired') = mset (RRset_Records desired) \<and>
        RRset_TTL desired' = RRset_TTL desired \<longrightarrow>
      shouldUpdateRRset desired' existing = shouldUpdateRRset desired existing)
   \<and> shouldUpdateRRset (desired\<lparr>RRset_Comments := cs\<rparr>) (existing\<lparr>RRset_Comments := cs'\<rparr>) =
       shouldUpdateRRset desired existing"
proof (intro conjI impI)
  show "shouldUpdateRRset desired existing \<longleftrightarrow>
      RRset_TTL desired \<noteq> RRset_TTL existing \<or>
      length (RRset_Records desired) \<noteq> length (RRset_Records existing) \<or>
      mset (map recordPair (RRset_Records desired)) \<noteq>
        mset (map recordPair (RRset_Records existing))"
    by (rule shouldUpdateRRset_iff)
next
  assume a: "mset (RRset_Records desired') = mset (RRset_Records desired) \<and>
        RRset_TTL desired' = RRset_TTL desired"
  then have "length (RRset_Records desired') = length (RRset_Records desired)"
    by (metis size_mset)
  moreover have "mset (map recordPair (RRset_Records desired')) =
      mset (map recordPair (RRset_Records desired))"
    using a by (metis mset_map)
  ultimately show "shouldUpdateRRset desired' existing = shouldUpdateRRset desired existing"
    using a unfolding shouldUpdateRRset_iff by simp
next
  show "shouldUpdateRRset (desired\<lparr>RRset_Comments := cs\<rparr>) (existing\<lparr>RRset_Comments := cs'\<rparr>) =
       shouldUpdateRRset desired existing"
    unfolding shouldUpdateRRset_iff by simp
qed

theorem update_iff_ttl_count_or_pairs_differ_witness:
  "mset (RRset_Records (rrset_www [rec_2, rec_1] [] 300)) =
     mset (RRset_Records (rrset_www [rec_1, rec_2] [] 300))
   \<and> RRset_TTL (rrset_www [rec_2, rec_1] [] 300) = RRset_TTL (rrset_www [rec_1, rec_2] [] 300)
   \<and> shouldUpdateRRset (rrset_www [rec_2, rec_1] [] 300) (rrset_www [rec_1, rec_2] [managedComment] 300)
       = shouldUpdateRRset (rrset_www [rec_1, rec_2] [] 300) (rrset_www [rec_1, rec_2] [managedComment] 300)
   \<and> \<not> shouldUpdateRRset (rrset_www [rec_1, rec_2] [] 300) (rrset_www [rec_1, rec_2] [managedComment] 300)
   \<and> shouldUpdateRRset (rrset_www [rec_1] [] 600) (rrset_www [rec_1] [managedComment] 300)
   \<and> shouldUpdateRRset (rrset_www [rec_1, rec_2] [] 300) (rrset_www [rec_1] [managedComment] 300)
   \<and> shouldUpdateRRset (rrset_www [rec_2] [] 300) (rrset_www [rec_1] [managedComment] 300)"
proof -
  have h: "mset (RRset_Records (rrset_www [rec_2, rec_1] [] 300)) =
       mset (RRset_Records (rrset_www [rec_1, rec_2] [] 300))
     \<and> RRset_TTL (rrset_www [rec_2, rec_1] [] 300) = RRset_TTL (rrset_www [rec_1, rec_2] [] 300)"
    by (simp add: rrset_www_def)
  show ?thesis
    using h
      update_iff_ttl_count_or_pairs_differ
        [of "rrset_www [rec_1, rec_2] [] 300" "rrset_www [rec_1, rec_2] [managedComment] 300"
            "rrset_www [rec_2, rec_1] [] 300"]
      update_iff_ttl_count_or_pairs_differ
        [of "rrset_www [rec_1] [] 600" "rrset_www [rec_1] [managedComment] 300"]
      update_iff_ttl_count_or_pairs_differ
        [of "rrset_www [rec_1, rec_2] [] 300" "rrset_www [rec_1] [managedComment] 300"]
      update_iff_ttl_count_or_pairs_differ
        [of "rrset_www [rec_2] [] 300" "rrset_www [rec_1] [managedComment] 300"]
    by (simp add: rrset_www_def recordPair_def rec_1_def rec_2_def)
qed

section \<open>The diff, in closed form\<close>

lemma addCounts_0 [simp]: "addCounts 0 0 0 r = r"
  by (simp add: addCounts_def)

lemma addCounts_add: "addCounts c u d (addCounts c' u' d' r) = addCounts (c' + c) (u' + u) (d' + d) r"
  by (simp add: addCounts_def)

lemma desiredStep_cases:
  "desiredStep acct ex kd (p, r) =
     (if isCreate ex kd then (p @ [createRRsetPatch acct (snd kd)], addCounts 1 0 0 r)
      else if isUpdate acct ex kd then (p @ [createRRsetPatch acct (snd kd)], addCounts 0 1 0 r)
      else (p, r))"
  by (cases kd) (auto simp: desiredStep_def isCreate_def isUpdate_def addCounts_def split: option.splits)

lemma fold_desiredStep:
  "fold (desiredStep acct ex) ds (p, r) =
     (p @ map (\<lambda>kd. createRRsetPatch acct (snd kd))
            (filter (\<lambda>kd. isCreate ex kd \<or> isUpdate acct ex kd) ds),
      addCounts (length (filter (isCreate ex) ds))
        (length (filter (\<lambda>kd. \<not> isCreate ex kd \<and> isUpdate acct ex kd) ds)) 0 r)"
proof (induction ds arbitrary: p r)
  case Nil
  show ?case by simp
next
  case (Cons kd ds)
  show ?case
    by (simp add: desiredStep_cases Cons.IH addCounts_add)
qed

lemma orphanStep_cases:
  "orphanStep acct des ke (p, r) =
     (if isOrphan acct des ke then (p @ [deletePatch (snd ke)], addCounts 0 0 1 r) else (p, r))"
  by (cases ke) (auto simp: orphanStep_def isOrphan_def addCounts_def)

lemma fold_orphanStep:
  "fold (orphanStep acct des) es (p, r) =
     (p @ map (\<lambda>ke. deletePatch (snd ke)) (filter (isOrphan acct des) es),
      addCounts 0 0 (length (filter (isOrphan acct des) es)) r)"
proof (induction es arbitrary: p r)
  case Nil
  show ?case by simp
next
  case (Cons ke es)
  show ?case
    by (simp add: orphanStep_cases Cons.IH addCounts_add)
qed

lemma isUpdate_not_isCreate: "isUpdate acct ex kd \<Longrightarrow> \<not> isCreate ex kd"
  by (auto simp: isUpdate_def isCreate_def split: option.splits)

lemma diffRRsets_eq:
  "diffRRsets acct des ex r =
     (map (\<lambda>kd. createRRsetPatch acct (snd kd))
        (filter (\<lambda>kd. isCreate ex kd \<or> isUpdate acct ex kd) des) @
      map (\<lambda>ke. deletePatch (snd ke)) (filter (isOrphan acct des) ex),
      addCounts (length (filter (isCreate ex) des))
        (length (filter (isUpdate acct ex) des))
        (length (filter (isOrphan acct des) ex)) r)"
proof -
  have "(\<lambda>kd. \<not> isCreate ex kd \<and> isUpdate acct ex kd) = isUpdate acct ex"
    using isUpdate_not_isCreate by blast
  then show ?thesis
    by (simp add: diffRRsets_def fold_desiredStep fold_orphanStep addCounts_add)
qed

lemma keyed_Nil [simp]: "keyed []"
  by (simp add: keyed_def)

lemma set_update_subset: "set (AList.update k v al) \<subseteq> insert (k, v) (set al)"
  by (induction al) auto

lemma keyed_update:
  "keyed al \<Longrightarrow> k = rrsetKey (RRset_Name r) (RRset_Type r) \<Longrightarrow> keyed (AList.update k r al)"
  unfolding keyed_def using set_update_subset [of k r al]
  by (auto simp: distinct_update)

lemma keyed_fold_index:
  "keyed m \<Longrightarrow>
   keyed (fold (\<lambda>rrset m. AList.update (rrsetKey (RRset_Name rrset) (RRset_Type rrset)) rrset m) rrsets m)"
  by (induction rrsets arbitrary: m) (simp_all add: keyed_update)

lemma keyed_indexRRsets: "keyed (indexRRsets rrsets)"
  by (simp add: indexRRsets_def keyed_fold_index)

lemma keyed_addDesired: "keyed al \<Longrightarrow> keyed (addDesired zoneID rrset al)"
  by (simp add: addDesired_def Let_def keyed_update)

lemma keyed_fold_addDesired: "keyed al \<Longrightarrow> keyed (fold (addDesired zoneID) rrsets al)"
  by (induction rrsets arbitrary: al) (simp_all add: keyed_addDesired)

lemma keyed_nsDesired: "keyed (nsDesired zoneID cfg state)"
  by (simp add: nsDesired_def keyed_def)

lemma keyed_buildDesiredRRsets:
  "buildDesiredRRsets zoneID cfg state = Inr desiredRRsets \<Longrightarrow> keyed desiredRRsets"
  by (auto simp: buildDesiredRRsets_def Let_def keyed_fold_addDesired keyed_nsDesired
      split: sum.splits prod.splits)

lemma keyed_map_of: "keyed al \<Longrightarrow> kr \<in> set al \<Longrightarrow> map_of al (fst kr) = Some (snd kr)"
  by (cases kr) (simp add: keyed_def)

lemma keyed_key: "keyed al \<Longrightarrow> kr \<in> set al \<Longrightarrow> fst kr = rrsetKey (RRset_Name (snd kr)) (RRset_Type (snd kr))"
  by (simp add: keyed_def)

lemma patchKey_create [simp]: "patchKey (createRRsetPatch acct d) = patchKey d"
  by (simp add: patchKey_def createRRsetPatch_def)

lemma patchKey_delete [simp]: "patchKey (deletePatch e) = patchKey e"
  by (simp add: patchKey_def deletePatch_def)

lemma diff_patch_cases:
  assumes "keyed des" "keyed ex" "p \<in> set (fst (diffRRsets acct des ex r))"
  shows "(\<exists>d. map_of des (patchKey p) = Some d \<and> p = createRRsetPatch acct d \<and>
              map_of ex (patchKey p) = None)
       \<or> (\<exists>d e. map_of des (patchKey p) = Some d \<and> p = createRRsetPatch acct d \<and>
              map_of ex (patchKey p) = Some e \<and> isManaged acct e \<and> shouldUpdateRRset d e)
       \<or> (\<exists>e. map_of ex (patchKey p) = Some e \<and> p = deletePatch e \<and> isManaged acct e \<and>
              map_of des (patchKey p) = None)"
proof -
  from assms(3) consider
    (rep) kd where "kd \<in> set des" "isCreate ex kd \<or> isUpdate acct ex kd" "p = createRRsetPatch acct (snd kd)"
  | (del) ke where "ke \<in> set ex" "isOrphan acct des ke" "p = deletePatch (snd ke)"
    by (auto simp: diffRRsets_eq)
  then show ?thesis
  proof cases
    case rep
    have k: "patchKey p = fst kd"
      using keyed_key [OF assms(1) rep(1)] rep(3) by (simp add: patchKey_def createRRsetPatch_def)
    have m: "map_of des (fst kd) = Some (snd kd)"
      by (rule keyed_map_of [OF assms(1) rep(1)])
    from rep(2) show ?thesis
    proof
      assume "isCreate ex kd"
      then show ?thesis using k m rep(3) by (simp add: isCreate_def)
    next
      assume "isUpdate acct ex kd"
      then show ?thesis using k m rep(3)
        by (auto simp: isUpdate_def split: option.splits)
    qed
  next
    case del
    have k: "patchKey p = fst ke"
      using keyed_key [OF assms(2) del(1)] del(3) by (simp add: patchKey_def deletePatch_def)
    have m: "map_of ex (fst ke) = Some (snd ke)"
      by (rule keyed_map_of [OF assms(2) del(1)])
    show ?thesis using k m del(2,3) by (simp add: isOrphan_def)
  qed
qed

section \<open>Ownership\<close>

text \<open>
  Claim C1. \<open>desiredRRsets\<close> is the desired state that \<^verbatim>\<open>applyRRsets\<close> builds for a
  zone, \<open>indexRRsets rrsets\<close> its index of the existing record sets, and \<open>patchRRsets\<close>
  the patch that it hands to \<^verbatim>\<open>sendPatch\<close>. An existing record set that is not managed has
  no entry in the patch under its key, whether the desired state has that key or not. Every
  entry of the patch is a REPLACE of a desired key that the existing map lacks (a create),
  a REPLACE of a desired key whose existing record set is managed (an update), or a DELETE
  of a managed existing record set whose key the desired state lacks; and the count of
  created record sets grows by the number of desired keys that the existing map lacks,
  the count of updated ones by the number of desired record sets whose existing record set
  is managed and differs (\<open>isUpdate\<close>), and the count of deleted ones by the number of
  managed existing record sets whose key the desired state lacks (\<open>isOrphan\<close>).
\<close>
theorem unmanaged_rrsets_never_patched:
  assumes "buildDesiredRRsets zoneID cfg state = Inr desiredRRsets"
      and "diffRRsets acct desiredRRsets (indexRRsets rrsets) result = (patchRRsets, result')"
  shows "(\<forall>key existing. map_of (indexRRsets rrsets) key = Some existing \<and> \<not> isManaged acct existing
            \<longrightarrow> (\<forall>p \<in> set patchRRsets. patchKey p \<noteq> key))
       \<and> (\<forall>p \<in> set patchRRsets.
            (RRset_ChangeType p = ''REPLACE'' \<and> map_of desiredRRsets (patchKey p) \<noteq> None \<and>
               map_of (indexRRsets rrsets) (patchKey p) = None)
          \<or> (RRset_ChangeType p = ''REPLACE'' \<and> map_of desiredRRsets (patchKey p) \<noteq> None \<and>
               (\<exists>existing. map_of (indexRRsets rrsets) (patchKey p) = Some existing \<and>
                  isManaged acct existing))
          \<or> (RRset_ChangeType p = ''DELETE'' \<and> map_of desiredRRsets (patchKey p) = None \<and>
               (\<exists>existing. map_of (indexRRsets rrsets) (patchKey p) = Some existing \<and>
                  isManaged acct existing)))
       \<and> ApplyResult_RRsetsCreated result' = ApplyResult_RRsetsCreated result +
            length (filter (\<lambda>kd. map_of (indexRRsets rrsets) (fst kd) = None) desiredRRsets)
       \<and> ApplyResult_RRsetsUpdated result' = ApplyResult_RRsetsUpdated result +
            length (filter (isUpdate acct (indexRRsets rrsets)) desiredRRsets)
       \<and> ApplyResult_RRsetsDeleted result' = ApplyResult_RRsetsDeleted result +
            length (filter (isOrphan acct desiredRRsets) (indexRRsets rrsets))"
proof -
  have kd: "keyed desiredRRsets" by (rule keyed_buildDesiredRRsets [OF assms(1)])
  have ke: "keyed (indexRRsets rrsets)" by (rule keyed_indexRRsets)
  have cases: "(\<exists>d. map_of desiredRRsets (patchKey p) = Some d \<and> p = createRRsetPatch acct d \<and>
              map_of (indexRRsets rrsets) (patchKey p) = None)
       \<or> (\<exists>d e. map_of desiredRRsets (patchKey p) = Some d \<and> p = createRRsetPatch acct d \<and>
              map_of (indexRRsets rrsets) (patchKey p) = Some e \<and> isManaged acct e \<and> shouldUpdateRRset d e)
       \<or> (\<exists>e. map_of (indexRRsets rrsets) (patchKey p) = Some e \<and> p = deletePatch e \<and> isManaged acct e \<and>
              map_of desiredRRsets (patchKey p) = None)" if "p \<in> set patchRRsets" for p
    using diff_patch_cases [OF kd ke, of p acct result] that assms(2) by simp
  have 1: "\<forall>key existing. map_of (indexRRsets rrsets) key = Some existing \<and> \<not> isManaged acct existing
            \<longrightarrow> (\<forall>p \<in> set patchRRsets. patchKey p \<noteq> key)"
    using cases by fastforce
  have 2: "\<forall>p \<in> set patchRRsets.
            (RRset_ChangeType p = ''REPLACE'' \<and> map_of desiredRRsets (patchKey p) \<noteq> None \<and>
               map_of (indexRRsets rrsets) (patchKey p) = None)
          \<or> (RRset_ChangeType p = ''REPLACE'' \<and> map_of desiredRRsets (patchKey p) \<noteq> None \<and>
               (\<exists>existing. map_of (indexRRsets rrsets) (patchKey p) = Some existing \<and>
                  isManaged acct existing))
          \<or> (RRset_ChangeType p = ''DELETE'' \<and> map_of desiredRRsets (patchKey p) = None \<and>
               (\<exists>existing. map_of (indexRRsets rrsets) (patchKey p) = Some existing \<and>
                  isManaged acct existing))"
  proof
    fix p assume "p \<in> set patchRRsets"
    from cases [OF this] show "(RRset_ChangeType p = ''REPLACE'' \<and> map_of desiredRRsets (patchKey p) \<noteq> None \<and>
               map_of (indexRRsets rrsets) (patchKey p) = None)
          \<or> (RRset_ChangeType p = ''REPLACE'' \<and> map_of desiredRRsets (patchKey p) \<noteq> None \<and>
               (\<exists>existing. map_of (indexRRsets rrsets) (patchKey p) = Some existing \<and>
                  isManaged acct existing))
          \<or> (RRset_ChangeType p = ''DELETE'' \<and> map_of desiredRRsets (patchKey p) = None \<and>
               (\<exists>existing. map_of (indexRRsets rrsets) (patchKey p) = Some existing \<and>
                  isManaged acct existing))"
      by (elim disjE exE conjE) (simp_all add: createRRsetPatch_def deletePatch_def)
  qed
  have 3: "ApplyResult_RRsetsCreated result' = ApplyResult_RRsetsCreated result +
            length (filter (\<lambda>kd. map_of (indexRRsets rrsets) (fst kd) = None) desiredRRsets)"
    using assms(2) by (auto simp: diffRRsets_eq addCounts_def isCreate_def [abs_def])
  have 4: "ApplyResult_RRsetsUpdated result' = ApplyResult_RRsetsUpdated result +
            length (filter (isUpdate acct (indexRRsets rrsets)) desiredRRsets)"
    using assms(2) by (auto simp: diffRRsets_eq addCounts_def)
  have 5: "ApplyResult_RRsetsDeleted result' = ApplyResult_RRsetsDeleted result +
            length (filter (isOrphan acct desiredRRsets) (indexRRsets rrsets))"
    using assms(2) by (auto simp: diffRRsets_eq addCounts_def)
  from 1 2 3 4 5 show ?thesis by blast
qed

text \<open>
  Claim C9. Every entry of the patch is a DELETE of an existing record set, or a REPLACE
  built from a desired record set that carries exactly one comment, with the content
  "Managed by zone-manager" and the configured account; such an entry satisfies the
  ownership predicate \<open>isManaged\<close>. The REPLACE entries are as many as the record sets
  counted as created or updated.
\<close>
theorem replace_entries_carry_ownership_comment:
  assumes "diffRRsets acct desiredRRsets existingByKey result = (patchRRsets, result')"
  shows "(\<forall>p \<in> set patchRRsets.
            (RRset_ChangeType p = ''REPLACE'' \<and> RRset_Comments p = [managedBy acct] \<and>
               isManaged acct p \<and> (\<exists>kd \<in> set desiredRRsets. p = createRRsetPatch acct (snd kd)))
          \<or> (RRset_ChangeType p = ''DELETE'' \<and>
               (\<exists>ke \<in> set existingByKey. p = deletePatch (snd ke))))
       \<and> length (filter (\<lambda>p. RRset_ChangeType p = ''REPLACE'') patchRRsets) =
           (ApplyResult_RRsetsCreated result' - ApplyResult_RRsetsCreated result) +
           (ApplyResult_RRsetsUpdated result' - ApplyResult_RRsetsUpdated result)"
proof -
  let ?rep = "filter (\<lambda>kd. isCreate existingByKey kd \<or> isUpdate acct existingByKey kd) desiredRRsets"
  let ?del = "filter (isOrphan acct desiredRRsets) existingByKey"
  have p: "patchRRsets = map (\<lambda>kd. createRRsetPatch acct (snd kd)) ?rep @
      map (\<lambda>ke. deletePatch (snd ke)) ?del"
    and r: "result' = addCounts (length (filter (isCreate existingByKey) desiredRRsets))
        (length (filter (isUpdate acct existingByKey) desiredRRsets)) (length ?del) result"
    using assms by (simp_all add: diffRRsets_eq)
  have 1: "\<forall>p \<in> set patchRRsets.
            (RRset_ChangeType p = ''REPLACE'' \<and> RRset_Comments p = [managedBy acct] \<and>
               isManaged acct p \<and> (\<exists>kd \<in> set desiredRRsets. p = createRRsetPatch acct (snd kd)))
          \<or> (RRset_ChangeType p = ''DELETE'' \<and>
               (\<exists>ke \<in> set existingByKey. p = deletePatch (snd ke)))"
    unfolding p by (auto simp: createRRsetPatch_def deletePatch_def managedBy_def isManaged_def)
  have "filter (\<lambda>p. RRset_ChangeType p = ''REPLACE'') patchRRsets =
      map (\<lambda>kd. createRRsetPatch acct (snd kd)) ?rep"
    unfolding p by (simp add: filter_map o_def createRRsetPatch_def deletePatch_def)
  moreover have "length ?rep = length (filter (isCreate existingByKey) desiredRRsets) +
      length (filter (isUpdate acct existingByKey) desiredRRsets)"
    using isUpdate_not_isCreate [of acct existingByKey]
    by (induction desiredRRsets) auto
  ultimately have 2: "length (filter (\<lambda>p. RRset_ChangeType p = ''REPLACE'') patchRRsets) =
           (ApplyResult_RRsetsCreated result' - ApplyResult_RRsetsCreated result) +
           (ApplyResult_RRsetsUpdated result' - ApplyResult_RRsetsUpdated result)"
    by (simp add: r addCounts_def)
  from 1 2 show ?thesis by blast
qed

text \<open>
  Claim C8. With a patch that is not empty, dry-run off, auto-confirm off and a
  confirmation function that answers no, \<^verbatim>\<open>sendPatch\<close> returns \<open>ErrAborted\<close> and leaves
  the world as it was: no call is added and the backend state is the same. Under dry-run
  it returns no error and leaves the world as it was, and so it does for an empty patch.
\<close>
theorem sendPatch_gates:
  "(patchRRsets \<noteq> [] \<and> \<not> ApplyOptions_DryRun opts \<and> \<not> ApplyOptions_AutoConfirm opts \<and>
      confirmFn m = Some f \<and> \<not> f ''Apply these changes?''
      \<longrightarrow> sendPatch m zoneID patchRRsets opts w = (Some ErrAborted, w))
   \<and> (ApplyOptions_DryRun opts \<longrightarrow> sendPatch m zoneID patchRRsets opts w = (None, w))
   \<and> sendPatch m zoneID [] opts w = (None, w)"
  by (simp add: sendPatch_def)

lemma ex_desired_built: "buildDesiredRRsets ''example.com.'' ex_zoneCfg ex_managed = Inr ex_desired"
  by code_simp

theorem unmanaged_rrsets_never_patched_witness:
  "buildDesiredRRsets ''example.com.'' ex_zoneCfg ex_managed = Inr ex_desired
   \<and> map_of (indexRRsets ex_rrsets) ''www.example.com./A'' =
       Some (rrset_A ''www.example.com.'' ''9.9.9.9'' [])
   \<and> \<not> isManaged ''zone-manager'' (rrset_A ''www.example.com.'' ''9.9.9.9'' [])
   \<and> map_of ex_desired ''www.example.com./A'' \<noteq> None
   \<and> map_of (indexRRsets ex_rrsets) ''manual.example.com./A'' =
       Some (rrset_A ''manual.example.com.'' ''192.168.1.99'' [otherComment])
   \<and> \<not> isManaged ''zone-manager'' (rrset_A ''manual.example.com.'' ''192.168.1.99'' [otherComment])
   \<and> map_of ex_desired ''manual.example.com./A'' = None
   \<and> list_all (\<lambda>p. patchKey p \<noteq> ''www.example.com./A'' \<and> patchKey p \<noteq> ''manual.example.com./A'')
       (fst (diffRRsets ''zone-manager'' ex_desired (indexRRsets ex_rrsets) emptyResult))
   \<and> map patchKey (fst (diffRRsets ''zone-manager'' ex_desired (indexRRsets ex_rrsets) emptyResult)) =
        [''example.com./NS'', ''mail.example.com./A'', ''example.com./TXT'', ''old.example.com./A'']"
proof -
  have h1: "buildDesiredRRsets ''example.com.'' ex_zoneCfg ex_managed = Inr ex_desired"
    by code_simp
  have h2: "diffRRsets ''zone-manager'' ex_desired (indexRRsets ex_rrsets) emptyResult =
      (fst (diffRRsets ''zone-manager'' ex_desired (indexRRsets ex_rrsets) emptyResult),
       snd (diffRRsets ''zone-manager'' ex_desired (indexRRsets ex_rrsets) emptyResult))"
    by simp
  have m1: "map_of (indexRRsets ex_rrsets) ''www.example.com./A'' =
       Some (rrset_A ''www.example.com.'' ''9.9.9.9'' [])
     \<and> \<not> isManaged ''zone-manager'' (rrset_A ''www.example.com.'' ''9.9.9.9'' [])"
    by code_simp
  have m2: "map_of (indexRRsets ex_rrsets) ''manual.example.com./A'' =
       Some (rrset_A ''manual.example.com.'' ''192.168.1.99'' [otherComment])
     \<and> \<not> isManaged ''zone-manager'' (rrset_A ''manual.example.com.'' ''192.168.1.99'' [otherComment])"
    by code_simp
  have d: "map_of ex_desired ''www.example.com./A'' \<noteq> None
     \<and> map_of ex_desired ''manual.example.com./A'' = None"
    by code_simp
  have l: "map patchKey (fst (diffRRsets ''zone-manager'' ex_desired (indexRRsets ex_rrsets) emptyResult)) =
        [''example.com./NS'', ''mail.example.com./A'', ''example.com./TXT'', ''old.example.com./A'']"
    by code_simp
  from unmanaged_rrsets_never_patched [OF h1 h2] m1 m2
  have "list_all (\<lambda>p. patchKey p \<noteq> ''www.example.com./A'' \<and> patchKey p \<noteq> ''manual.example.com./A'')
       (fst (diffRRsets ''zone-manager'' ex_desired (indexRRsets ex_rrsets) emptyResult))"
    unfolding list_all_iff by blast
  with h1 m1 m2 d l show ?thesis by blast
qed

theorem replace_entries_carry_ownership_comment_witness:
  "list_all
     (\<lambda>p. RRset_ChangeType p = ''REPLACE'' \<and> RRset_Comments p = [managedBy ''zone-manager''] \<and>
            isManaged ''zone-manager'' p
          \<or> RRset_ChangeType p = ''DELETE'')
     (fst (diffRRsets ''zone-manager'' ex_desired (indexRRsets ex_rrsets) emptyResult))
   \<and> map RRset_ChangeType
        (fst (diffRRsets ''zone-manager'' ex_desired (indexRRsets ex_rrsets) emptyResult)) =
        [''REPLACE'', ''REPLACE'', ''REPLACE'', ''DELETE'']
   \<and> ApplyResult_RRsetsCreated
        (snd (diffRRsets ''zone-manager'' ex_desired (indexRRsets ex_rrsets) emptyResult)) = 2
   \<and> ApplyResult_RRsetsUpdated
        (snd (diffRRsets ''zone-manager'' ex_desired (indexRRsets ex_rrsets) emptyResult)) = 1"
proof -
  have h: "diffRRsets ''zone-manager'' ex_desired (indexRRsets ex_rrsets) emptyResult =
      (fst (diffRRsets ''zone-manager'' ex_desired (indexRRsets ex_rrsets) emptyResult),
       snd (diffRRsets ''zone-manager'' ex_desired (indexRRsets ex_rrsets) emptyResult))"
    by simp
  have l: "map RRset_ChangeType
        (fst (diffRRsets ''zone-manager'' ex_desired (indexRRsets ex_rrsets) emptyResult)) =
        [''REPLACE'', ''REPLACE'', ''REPLACE'', ''DELETE'']
     \<and> ApplyResult_RRsetsCreated
        (snd (diffRRsets ''zone-manager'' ex_desired (indexRRsets ex_rrsets) emptyResult)) = 2
     \<and> ApplyResult_RRsetsUpdated
        (snd (diffRRsets ''zone-manager'' ex_desired (indexRRsets ex_rrsets) emptyResult)) = 1"
    by code_simp
  from replace_entries_carry_ownership_comment [OF h]
  have "list_all
     (\<lambda>p. RRset_ChangeType p = ''REPLACE'' \<and> RRset_Comments p = [managedBy ''zone-manager''] \<and>
            isManaged ''zone-manager'' p
          \<or> RRset_ChangeType p = ''DELETE'')
     (fst (diffRRsets ''zone-manager'' ex_desired (indexRRsets ex_rrsets) emptyResult))"
    unfolding list_all_iff by blast
  with l show ?thesis by blast
qed

theorem sendPatch_gates_witness:
  "ex_rrsets \<noteq> []
   \<and> confirmFn (SetConfirmFunc (NewManager mockClient ''zone-manager'') (\<lambda>prompt. False)) =
       Some (\<lambda>prompt. False)
   \<and> sendPatch (SetConfirmFunc (NewManager mockClient ''zone-manager'') (\<lambda>prompt. False))
       ''example.com.'' ex_rrsets
       \<lparr> ApplyOptions_DryRun = False, ApplyOptions_AutoConfirm = False \<rparr>
       \<lparr> backend = NewMockClient, calls = [] \<rparr> =
       (Some ErrAborted, \<lparr> backend = NewMockClient, calls = [] \<rparr>)
   \<and> sendPatch (NewManager mockClient ''zone-manager'') ''example.com.'' ex_rrsets
       \<lparr> ApplyOptions_DryRun = True, ApplyOptions_AutoConfirm = False \<rparr>
       \<lparr> backend = NewMockClient, calls = [] \<rparr> =
       (None, \<lparr> backend = NewMockClient, calls = [] \<rparr>)"
proof -
  have h: "ex_rrsets \<noteq> []
     \<and> confirmFn (SetConfirmFunc (NewManager mockClient ''zone-manager'') (\<lambda>prompt. False)) =
         Some (\<lambda>prompt. False)"
    by (simp add: ex_rrsets_def SetConfirmFunc_def NewManager_def)
  show ?thesis
    using h
      sendPatch_gates [of ex_rrsets
        "\<lparr> ApplyOptions_DryRun = False, ApplyOptions_AutoConfirm = False \<rparr>"
        "SetConfirmFunc (NewManager mockClient ''zone-manager'') (\<lambda>prompt. False)"
        "\<lambda>prompt. False" "''example.com.''" "\<lparr> backend = NewMockClient, calls = [] \<rparr>"]
      sendPatch_gates [of ex_rrsets
        "\<lparr> ApplyOptions_DryRun = True, ApplyOptions_AutoConfirm = False \<rparr>"
        "NewManager mockClient ''zone-manager''"
        "\<lambda>prompt. False" "''example.com.''" "\<lparr> backend = NewMockClient, calls = [] \<rparr>"]
    by simp
qed

section \<open>Validation\<close>

lemma validateRRsetsLoop_NameserversRequired:
  "NameserversRequired z \<in> set (validateRRsetsLoop zoneName i rrsets seen errs) \<longleftrightarrow>
   NameserversRequired z \<in> set errs"
proof (induction rrsets arbitrary: i seen errs)
  case Nil
  show ?case by simp
next
  case (Cons rrset rrsets)
  show ?case
    by (auto simp: Let_def Cons.IH split: sum.splits)
qed

lemma validateZone_NameserversRequired:
  "NameserversRequired z \<in> set (validateZone zoneName zone existingZones errs) \<longleftrightarrow>
   NameserversRequired z \<in> set errs \<or>
   (z = zoneName \<and> \<not> ZoneState_Exists (lookupState existingZones (CanonicalZoneName zoneName)) \<and>
    CfgZone_Nameservers zone = [])"
  by (auto simp: validateZone_def validateRRsets_def Let_def validateRRsetsLoop_NameserversRequired)

lemma fold_validateZone_NameserversRequired:
  "NameserversRequired z \<in> set (fold (\<lambda>(zoneName, zone) errs. validateZone zoneName zone existingZones errs) zs errs) \<longleftrightarrow>
   NameserversRequired z \<in> set errs \<or>
   (\<exists>zone. (z, zone) \<in> set zs \<and>
      \<not> ZoneState_Exists (lookupState existingZones (CanonicalZoneName z)) \<and>
      CfgZone_Nameservers zone = [])"
proof (induction zs arbitrary: errs)
  case Nil
  show ?case by simp
next
  case (Cons a zs)
  obtain zn zone where a: "a = (zn, zone)" by (cases a)
  show ?case
    by (auto simp: a Cons.IH validateZone_NameserversRequired)
qed

lemma violations_eq:
  "violations c existingZones =
     fold (\<lambda>(zoneName, zone) errs. validateZone zoneName zone existingZones errs) (Config_Zones c) []"
  by (simp add: violations_def Validate_def Let_def)

text \<open>
  Claim C6. \<open>violations\<close> is the list of messages that \<^verbatim>\<open>Validate\<close> reports. It holds
  the message "nameservers are required" for a zone name exactly when the configuration
  has a zone of that name with no nameservers and the state recorded for its canonical
  name says that it does not exist (a name with no recorded state reads as such). A zone
  recorded as existing never gets the message.
\<close>
theorem nameservers_required_iff_zone_absent:
  "(NameserversRequired zoneName \<in> set (violations c existingZones) \<longleftrightarrow>
      (\<exists>zone. (zoneName, zone) \<in> set (Config_Zones c) \<and>
         \<not> ZoneState_Exists (lookupState existingZones (CanonicalZoneName zoneName)) \<and>
         CfgZone_Nameservers zone = []))
   \<and> (ZoneState_Exists (lookupState existingZones (CanonicalZoneName zoneName)) \<longrightarrow>
        NameserversRequired zoneName \<notin> set (violations c existingZones))"
  by (simp add: violations_eq fold_validateZone_NameserversRequired)

section \<open>Quoting of TXT content\<close>







theorem nameservers_required_iff_zone_absent_witness:
  "NameserversRequired ''example.com'' \<in> set (violations cfg_no_ns [])
   \<and> ZoneState_Exists
        (lookupState [(''example.com.'', ex_managed)] (CanonicalZoneName ''example.com''))
   \<and> NameserversRequired ''example.com'' \<notin>
        set (violations cfg_no_ns [(''example.com.'', ex_managed)])"
proof -
  have e: "\<exists>zone. (''example.com'', zone) \<in> set (Config_Zones cfg_no_ns) \<and>
         \<not> ZoneState_Exists (lookupState [] (CanonicalZoneName ''example.com'')) \<and>
         CfgZone_Nameservers zone = []"
    by (rule exI [of _ "snd (hd (Config_Zones cfg_no_ns))"]) code_simp
  have x: "ZoneState_Exists
        (lookupState [(''example.com.'', ex_managed)] (CanonicalZoneName ''example.com''))"
    by code_simp
  show ?thesis
    using e x
      nameservers_required_iff_zone_absent [of "''example.com''" cfg_no_ns "[]"]
      nameservers_required_iff_zone_absent
        [of "''example.com''" cfg_no_ns "[(''example.com.'', ex_managed)]"]
    by blast
qed


section \<open>The counters of one zone\<close>

lemma applyRRsets_result:
  "applyRRsets m zoneID cfg (Some zone) state opts w result = Some (err, w', result') \<Longrightarrow>
   result' = planRRsets (accountName m) zoneID cfg state (Zone_RRsets zone) result"
  by (auto simp: applyRRsets_def planRRsets_def Let_def split: sum.splits prod.splits)

lemma applyRRsets_Some:
  "\<exists>err w'. applyRRsets m zoneID cfg (Some zone) state opts w result =
     Some (err, w', planRRsets (accountName m) zoneID cfg state (Zone_RRsets zone) result)"
  by (auto simp: applyRRsets_def planRRsets_def Let_def split: sum.splits prod.splits)




section \<open>Failures of the run\<close>

lemma fetched_Nil: "fetched [] []"
  by (simp add: fetched_def lookupState_def)

lemma fetchZones_fetched:
  "fetched ez zd \<Longrightarrow> fetchZones m s names (ez, zd) = Inr (ez', zd') \<Longrightarrow> fetched ez' zd'"
proof (induction names arbitrary: ez zd)
  case Nil
  then show ?case by simp
next
  case (Cons n names)
  show ?case
  proof (cases "GetZone (client m) s (CanonicalZoneName n)")
    case (Inl err)
    with Cons.prems show ?thesis by simp
  next
    case (Inr zo)
    show ?thesis
    proof (cases zo)
      case None
      have "fetched (AList.update (CanonicalZoneName n)
          \<lparr> ZoneState_Exists = False, ZoneState_IsManaged = False \<rparr> ez) zd"
        using Cons.prems(1) by (auto simp: fetched_def lookupState_def update_conv')
      then show ?thesis
        using Cons.IH Cons.prems(2) Inr None by (simp add: Let_def)
    next
      case (Some zone)
      have "fetched (AList.update (CanonicalZoneName n)
          \<lparr> ZoneState_Exists = True, ZoneState_IsManaged = (Zone_Account zone = accountName m) \<rparr> ez)
          (AList.update (CanonicalZoneName n) zone zd)"
        using Cons.prems(1) by (auto simp: fetched_def lookupState_def update_conv')
      then show ?thesis
        using Cons.IH Cons.prems(2) Inr Some by (simp add: Let_def)
    qed
  qed
qed

lemma applyRRsets_Some_ex:
  "\<exists>out. applyRRsets m zoneID cfg (Some zone) state opts w result = Some out"
  using applyRRsets_Some [of m zoneID cfg zone state opts w result] by blast

lemma applyZone_total:
  assumes "ZoneState_Exists state \<longrightarrow> existingZone \<noteq> None"
  shows "\<exists>out. applyZone m zoneID zoneConfig state existingZone opts w result = Some out"
proof (cases "ZoneState_Exists state")
  case True
  with assms obtain zone where "existingZone = Some zone" by auto
  then show ?thesis
    using True applyRRsets_Some_ex [of m zoneID zoneConfig zone state opts w result]
    by (simp add: applyZone_def)
next
  case False
  show ?thesis
  proof (cases "ApplyOptions_DryRun opts")
    case True
    then show ?thesis
      using False applyRRsets_Some_ex [of m zoneID zoneConfig "mockZone zoneID" state opts w]
      by (simp add: applyZone_def)
  next
    case dry: False
    obtain res s1 where c: "CreateZone (client m) (backend w) (newZone m zoneID zoneConfig) = (res, s1)"
      by (cases "CreateZone (client m) (backend w) (newZone m zoneID zoneConfig)")
    show ?thesis
    proof (cases res)
      case (Inl err)
      then show ?thesis using False dry c by (simp add: applyZone_def Let_def)
    next
      case (Inr created)
      then show ?thesis
        using False dry c applyRRsets_Some_ex [of m zoneID zoneConfig created state opts]
        by (simp add: applyZone_def Let_def)
    qed
  qed
qed

lemma applyZone_Errors:
  "applyZone m zoneID zoneConfig state existingZone opts w result = Some (err, w', result') \<Longrightarrow>
   ApplyResult_Errors result' = ApplyResult_Errors result"
  by (auto simp: applyZone_def applyRRsets_def diffRRsets_eq addCounts_def Let_def
      split: if_splits prod.splits sum.splits option.splits)

lemma applyZones_total:
  "fetched ez zd \<Longrightarrow> \<exists>out. applyZones m opts ez zd zs w result = Some out"
proof (induction zs arbitrary: w result)
  case Nil
  show ?case by simp
next
  case (Cons z zs)
  obtain zoneName zoneConfig where z: "z = (zoneName, zoneConfig)" by (cases z)
  let ?cn = "CanonicalZoneName zoneName"
  have "ZoneState_Exists (lookupState ez ?cn) \<longrightarrow> map_of zd ?cn \<noteq> None"
    using Cons.prems by (simp add: fetched_def)
  from applyZone_total [OF this]
  obtain err w' result' where
    "applyZone m ?cn (NormalizeZone zoneConfig) (lookupState ez ?cn) (map_of zd ?cn) opts w result =
       Some (err, w', result')"
    by (metis prod_cases3)
  then show ?case
    using Cons.IH [OF Cons.prems] by (cases err) (simp_all add: z Let_def)
qed

lemma applyZones_append:
  "applyZones m opts ez zd (zs1 @ zs2) w result =
     (case applyZones m opts ez zd zs1 w result of
        None \<Rightarrow> None
      | Some (w1, result1) \<Rightarrow> applyZones m opts ez zd zs2 w1 result1)"
proof (induction zs1 arbitrary: w result)
  case Nil
  show ?case by simp
next
  case (Cons z zs1)
  show ?case
    by (cases z) (simp add: Let_def Cons.IH split: option.splits prod.splits)
qed

lemma applyZones_Errors_mono:
  "applyZones m opts ez zd zs w result = Some (w', result') \<Longrightarrow>
   set (ApplyResult_Errors result) \<subseteq> set (ApplyResult_Errors result')"
proof (induction zs arbitrary: w result)
  case Nil
  then show ?case by simp
next
  case (Cons z zs)
  obtain zoneName zoneConfig where z: "z = (zoneName, zoneConfig)" by (cases z)
  let ?cn = "CanonicalZoneName zoneName"
  from Cons.prems obtain err w1 r1 where
    a: "applyZone m ?cn (NormalizeZone zoneConfig) (lookupState ez ?cn) (map_of zd ?cn) opts w result =
       Some (err, w1, r1)"
    by (auto simp: z Let_def split: option.splits)
  have e: "ApplyResult_Errors r1 = ApplyResult_Errors result"
    by (rule applyZone_Errors [OF a])
  show ?case
  proof (cases err)
    case None
    with Cons.prems a have "applyZones m opts ez zd zs w1 r1 = Some (w', result')"
      by (simp add: z Let_def)
    from Cons.IH [OF this] e show ?thesis by simp
  next
    case (Some x)
    with Cons.prems a have "applyZones m opts ez zd zs w1
        (r1\<lparr>ApplyResult_Errors := ApplyResult_Errors r1 @ [ZoneError zoneName x]\<rparr>) = Some (w', result')"
      by (simp add: z Let_def)
    from Cons.IH [OF this] e show ?thesis by auto
  qed
qed

lemma fetchZones_Inl:
  assumes "n \<in> set names" "GetZone (client m) s (CanonicalZoneName n) = Inl e"
  shows "\<exists>n' e'. n' \<in> set names \<and> GetZone (client m) s (CanonicalZoneName n') = Inl e' \<and>
           fetchZones m s names maps = Inl (FailedToCheckZone n' e')"
  using assms(1)
proof (induction names arbitrary: maps)
  case Nil
  then show ?case by simp
next
  case (Cons a names)
  obtain ez zd where maps: "maps = (ez, zd)" by (cases maps)
  show ?case
  proof (cases "GetZone (client m) s (CanonicalZoneName a)")
    case (Inl err)
    then show ?thesis by (auto simp: maps)
  next
    case (Inr zo)
    then have "n \<noteq> a" using assms(2) by auto
    with Cons.prems have "n \<in> set names" by simp
    note ih = Cons.IH [OF this]
    show ?thesis
    proof (cases zo)
      case None
      from ih [of "(AList.update (CanonicalZoneName a)
          \<lparr> ZoneState_Exists = False, ZoneState_IsManaged = False \<rparr> ez, zd)"]
      show ?thesis using Inr None by (auto simp: maps Let_def)
    next
      case (Some zone)
      from ih [of "(AList.update (CanonicalZoneName a)
          \<lparr> ZoneState_Exists = True, ZoneState_IsManaged = (Zone_Account zone = accountName m) \<rparr> ez,
          AList.update (CanonicalZoneName a) zone zd)"]
      show ?thesis using Inr Some by (auto simp: maps Let_def)
    qed
  qed
qed

text \<open>
  Claim C5. If \<^verbatim>\<open>GetZone\<close> fails for a zone of the configuration, \<^verbatim>\<open>Apply\<close> returns the
  error of such a failure, wrapped with the name of the zone, and leaves the world as it
  was: no \<^verbatim>\<open>CreateZone\<close> and no \<^verbatim>\<open>PatchZone\<close> call, the same backend state. If all zones
  are fetched and validation passes, \<^verbatim>\<open>Apply\<close> returns a result, and every zone of the
  configuration is reached: the loop gets through the zones before it, \<^verbatim>\<open>applyZone\<close>
  returns for it, and an error that it returns there is among the errors of the final
  result, under the name of the zone.
\<close>
theorem fetch_failure_aborts_apply_failure_recorded:
  "((\<exists>z \<in> set (Config_Zones cfg). \<exists>e.
       GetZone (client m) (backend w) (CanonicalZoneName (fst z)) = Inl e) \<longrightarrow>
     (\<exists>z \<in> set (Config_Zones cfg). \<exists>e.
       GetZone (client m) (backend w) (CanonicalZoneName (fst z)) = Inl e \<and>
       Apply m cfg opts w = Some (Inl (FailedToCheckZone (fst z) e), w)))
   \<and> (\<forall>existingZones zoneData.
        fetchZones m (backend w) (map fst (Config_Zones cfg)) ([], []) =
          Inr (existingZones, zoneData) \<and>
        Validate cfg existingZones = None \<longrightarrow>
        (\<exists>w' result. Apply m cfg opts w = Some (Inr result, w') \<and>
           (\<forall>zs1 zoneName zoneConfig zs2.
              Config_Zones cfg = zs1 @ (zoneName, zoneConfig) # zs2 \<longrightarrow>
              (\<exists>w1 result1 err w2 result2.
                 applyZones m opts existingZones zoneData zs1 w emptyResult = Some (w1, result1) \<and>
                 applyZone m (CanonicalZoneName zoneName) (NormalizeZone zoneConfig)
                   (lookupState existingZones (CanonicalZoneName zoneName))
                   (map_of zoneData (CanonicalZoneName zoneName)) opts w1 result1 =
                   Some (err, w2, result2) \<and>
                 (\<forall>e. err = Some e \<longrightarrow>
                    ZoneError zoneName e \<in> set (ApplyResult_Errors result))))))"
proof (intro conjI impI allI)
  assume "\<exists>z \<in> set (Config_Zones cfg). \<exists>e.
       GetZone (client m) (backend w) (CanonicalZoneName (fst z)) = Inl e"
  then obtain z e where z: "z \<in> set (Config_Zones cfg)"
    "GetZone (client m) (backend w) (CanonicalZoneName (fst z)) = Inl e" by blast
  then have "fst z \<in> set (map fst (Config_Zones cfg))" by simp
  from fetchZones_Inl [OF this z(2), of "([], [])"]
  obtain n' e' where n: "n' \<in> set (map fst (Config_Zones cfg))"
    "GetZone (client m) (backend w) (CanonicalZoneName n') = Inl e'"
    "fetchZones m (backend w) (map fst (Config_Zones cfg)) ([], []) = Inl (FailedToCheckZone n' e')"
    by blast
  from n(1) obtain z' where "z' \<in> set (Config_Zones cfg)" "fst z' = n'" by auto
  then show "\<exists>z \<in> set (Config_Zones cfg). \<exists>e.
       GetZone (client m) (backend w) (CanonicalZoneName (fst z)) = Inl e \<and>
       Apply m cfg opts w = Some (Inl (FailedToCheckZone (fst z) e), w)"
    using n(2,3) by (auto simp: Apply_def)
next
  fix ez zd
  assume a: "fetchZones m (backend w) (map fst (Config_Zones cfg)) ([], []) = Inr (ez, zd) \<and>
        Validate cfg ez = None"
  have f: "fetched ez zd"
    by (rule fetchZones_fetched [OF fetched_Nil a [THEN conjunct1]])
  from applyZones_total [OF f, of m opts "Config_Zones cfg" w emptyResult]
  obtain w' result where all: "applyZones m opts ez zd (Config_Zones cfg) w emptyResult = Some (w', result)"
    by auto
  have ap: "Apply m cfg opts w = Some (Inr result, w')"
    using a all by (simp add: Apply_def)
  have "\<exists>w1 result1 err w2 result2.
                 applyZones m opts ez zd zs1 w emptyResult = Some (w1, result1) \<and>
                 applyZone m (CanonicalZoneName zoneName) (NormalizeZone zoneConfig)
                   (lookupState ez (CanonicalZoneName zoneName))
                   (map_of zd (CanonicalZoneName zoneName)) opts w1 result1 =
                   Some (err, w2, result2) \<and>
                 (\<forall>e. err = Some e \<longrightarrow>
                    ZoneError zoneName e \<in> set (ApplyResult_Errors result))"
    if split: "Config_Zones cfg = zs1 @ (zoneName, zoneConfig) # zs2" for zs1 zoneName zoneConfig zs2
  proof -
    let ?cn = "CanonicalZoneName zoneName"
    from applyZones_total [OF f, of m opts zs1 w emptyResult]
    obtain w1 r1 where p: "applyZones m opts ez zd zs1 w emptyResult = Some (w1, r1)" by auto
    have rest: "applyZones m opts ez zd ((zoneName, zoneConfig) # zs2) w1 r1 = Some (w', result)"
      using all p by (simp add: split applyZones_append)
    have "ZoneState_Exists (lookupState ez ?cn) \<longrightarrow> map_of zd ?cn \<noteq> None"
      using f by (simp add: fetched_def)
    from applyZone_total [OF this]
    obtain err w2 r2 where z: "applyZone m ?cn (NormalizeZone zoneConfig) (lookupState ez ?cn)
        (map_of zd ?cn) opts w1 r1 = Some (err, w2, r2)"
      by (metis prod_cases3)
    have "ZoneError zoneName e \<in> set (ApplyResult_Errors result)" if "err = Some e" for e
    proof -
      from rest z that have "applyZones m opts ez zd zs2 w2
          (r2\<lparr>ApplyResult_Errors := ApplyResult_Errors r2 @ [ZoneError zoneName e]\<rparr>) = Some (w', result)"
        by (simp add: Let_def)
      from applyZones_Errors_mono [OF this] show ?thesis by auto
    qed
    with p z show ?thesis by blast
  qed
  with ap show "\<exists>w' result. Apply m cfg opts w = Some (Inr result, w') \<and>
           (\<forall>zs1 zoneName zoneConfig zs2.
              Config_Zones cfg = zs1 @ (zoneName, zoneConfig) # zs2 \<longrightarrow>
              (\<exists>w1 result1 err w2 result2.
                 applyZones m opts ez zd zs1 w emptyResult = Some (w1, result1) \<and>
                 applyZone m (CanonicalZoneName zoneName) (NormalizeZone zoneConfig)
                   (lookupState ez (CanonicalZoneName zoneName))
                   (map_of zd (CanonicalZoneName zoneName)) opts w1 result1 =
                   Some (err, w2, result2) \<and>
                 (\<forall>e. err = Some e \<longrightarrow>
                    ZoneError zoneName e \<in> set (ApplyResult_Errors result))))"
    by blast
qed

section \<open>Dry run\<close>







lemma counters_Errors [simp]: "counters (r\<lparr>ApplyResult_Errors := es\<rparr>) = counters r"
  by (simp add: counters_def)









theorem fetch_failure_aborts_apply_failure_recorded_witness:
  "GetZone (client mgr) (backend w_getErr) (CanonicalZoneName ''example.com'') = Inl boom
   \<and> Apply mgr cfg_new opts_real w_getErr =
       Some (Inl (FailedToCheckZone ''example.com'' boom), w_getErr)
   \<and> fetchZones mgr (backend w_two) (map fst (Config_Zones cfg_two)) ([], []) = Inr fetched_two
   \<and> Validate cfg_two (fst fetched_two) = None
   \<and> (\<exists>w' result. Apply mgr cfg_two opts_real w_two = Some (Inr result, w') \<and>
         ZoneError ''a.com'' (FailedToCreateZone boom) \<in> set (ApplyResult_Errors result))
   \<and> map_option (\<lambda>out. calls (snd out)) (Apply mgr cfg_two opts_real w_two) =
       Some [CreateZoneCall (newZone mgr ''a.com.'' (NormalizeZone (snd (hd (Config_Zones cfg_two))))),
             PatchZoneCall ''b.com.'' patch_b]
   \<and> outcomeCounters (Apply mgr cfg_two opts_real w_two) = Some (Inr (0, 1, 0, 0))"
proof -
  have g: "GetZone (client mgr) (backend w_getErr) (CanonicalZoneName ''example.com'') = Inl boom"
    by code_simp
  have z: "(''example.com'', snd (hd (Config_Zones cfg_new))) \<in> set (Config_Zones cfg_new)"
    by (simp add: cfg_new_def)
  have only: "z \<in> set (Config_Zones cfg_new) \<Longrightarrow> fst z = ''example.com''" for z
    by (auto simp: cfg_new_def)
  have 1: "Apply mgr cfg_new opts_real w_getErr =
       Some (Inl (FailedToCheckZone ''example.com'' boom), w_getErr)"
  proof -
    from fetch_failure_aborts_apply_failure_recorded [of cfg_new mgr w_getErr opts_real, THEN conjunct1]
      z g
    obtain z' e where z': "z' \<in> set (Config_Zones cfg_new)"
      "GetZone (client mgr) (backend w_getErr) (CanonicalZoneName (fst z')) = Inl e"
      "Apply mgr cfg_new opts_real w_getErr = Some (Inl (FailedToCheckZone (fst z') e), w_getErr)"
      by force
    from only [OF z'(1)] z'(2,3) g show ?thesis by simp
  qed
  have f: "fetchZones mgr (backend w_two) (map fst (Config_Zones cfg_two)) ([], []) = Inr fetched_two"
    by code_simp
  have f': "fetchZones mgr (backend w_two) (map fst (Config_Zones cfg_two)) ([], []) =
      Inr (fst fetched_two, snd fetched_two)"
    using f by simp
  have v: "Validate cfg_two (fst fetched_two) = None"
    by code_simp
  have split: "Config_Zones cfg_two =
      [] @ (''a.com'', snd (hd (Config_Zones cfg_two))) # tl (Config_Zones cfg_two)"
    by (simp add: cfg_two_def)
  have az: "applyZone mgr (CanonicalZoneName ''a.com'') (NormalizeZone (snd (hd (Config_Zones cfg_two))))
      (lookupState (fst fetched_two) (CanonicalZoneName ''a.com''))
      (map_of (snd fetched_two) (CanonicalZoneName ''a.com'')) opts_real w_two emptyResult =
      Some (Some (FailedToCreateZone boom),
        w_two\<lparr>calls := [CreateZoneCall (newZone mgr ''a.com.'' (NormalizeZone (snd (hd (Config_Zones cfg_two)))))]\<rparr>,
        emptyResult)"
    by code_simp
  from fetch_failure_aborts_apply_failure_recorded [of cfg_two mgr w_two opts_real, THEN conjunct2,
      rule_format, OF conjI [OF f' v]]
  obtain w' result where ap: "Apply mgr cfg_two opts_real w_two = Some (Inr result, w')"
    and all: "\<And>zs1 zoneName zoneConfig zs2.
       Config_Zones cfg_two = zs1 @ (zoneName, zoneConfig) # zs2 \<Longrightarrow>
       \<exists>w1 result1 err w2 result2.
         applyZones mgr opts_real (fst fetched_two) (snd fetched_two) zs1 w_two emptyResult =
           Some (w1, result1) \<and>
         applyZone mgr (CanonicalZoneName zoneName) (NormalizeZone zoneConfig)
           (lookupState (fst fetched_two) (CanonicalZoneName zoneName))
           (map_of (snd fetched_two) (CanonicalZoneName zoneName)) opts_real w1 result1 =
           Some (err, w2, result2) \<and>
         (\<forall>e. err = Some e \<longrightarrow> ZoneError zoneName e \<in> set (ApplyResult_Errors result))"
    by blast
  from all [OF split] az
  have "ZoneError ''a.com'' (FailedToCreateZone boom) \<in> set (ApplyResult_Errors result)"
    by auto
  with ap have 2: "\<exists>w' result. Apply mgr cfg_two opts_real w_two = Some (Inr result, w') \<and>
         ZoneError ''a.com'' (FailedToCreateZone boom) \<in> set (ApplyResult_Errors result)"
    by blast
  have 3: "map_option (\<lambda>out. calls (snd out)) (Apply mgr cfg_two opts_real w_two) =
       Some [CreateZoneCall (newZone mgr ''a.com.'' (NormalizeZone (snd (hd (Config_Zones cfg_two))))),
             PatchZoneCall ''b.com.'' patch_b]
   \<and> outcomeCounters (Apply mgr cfg_two opts_real w_two) = Some (Inr (0, 1, 0, 0))"
    by code_simp
  from g 1 f v 2 3 show ?thesis by blast
qed

section \<open>A second run\<close>

lemma patchApplied_Nil: "patchApplied [] old old"
  by (simp add: patchApplied_def)

lemma keyed_patchKey: "keyed al \<Longrightarrow> kr \<in> set al \<Longrightarrow> patchKey (snd kr) = fst kr"
  by (simp add: keyed_def patchKey_def)

lemma keyed_mem: "keyed al \<Longrightarrow> map_of al k = Some r \<Longrightarrow> (k, r) \<in> set al"
  by (simp add: map_of_SomeD)

lemma diff_patch_set:
  "set (fst (diffRRsets acct des ex r)) =
     (\<lambda>kd. createRRsetPatch acct (snd kd)) ` {kd \<in> set des. isCreate ex kd \<or> isUpdate acct ex kd}
     \<union> (\<lambda>ke. deletePatch (snd ke)) ` {ke \<in> set ex. isOrphan acct des ke}"
  by (auto simp: diffRRsets_eq)

lemma shouldUpdateRRset_same:
  assumes "mset (RRset_Records r) = mset (RRset_Records d)" and "RRset_TTL r = RRset_TTL d"
  shows "\<not> shouldUpdateRRset d r"
proof -
  have "length (RRset_Records r) = length (RRset_Records d)"
    using assms(1) by (rule mset_eq_length)
  moreover have "mset (map recordPair (RRset_Records r)) = mset (map recordPair (RRset_Records d))"
    using assms(1) by (metis mset_map)
  ultimately show ?thesis
    using assms(2) by (simp add: shouldUpdateRRset_iff)
qed

lemma second_diff_zero:
  assumes kd: "keyed des" and k1: "keyed ex1" and k2: "keyed ex2"
      and d: "diffRRsets acct des ex1 r = (patchRRsets, r')"
      and pa: "patchApplied patchRRsets (map_of ex1) (map_of ex2)"
  shows "diffRRsets acct des ex2 r2 = ([], r2)"
proof -
  have ps: "set patchRRsets =
     (\<lambda>kd. createRRsetPatch acct (snd kd)) ` {kd \<in> set des. isCreate ex1 kd \<or> isUpdate acct ex1 kd}
     \<union> (\<lambda>ke. deletePatch (snd ke)) ` {ke \<in> set ex1. isOrphan acct des ke}"
    using diff_patch_set [of acct des ex1 r] d by simp
  have mem: "e \<in> set patchRRsets \<longleftrightarrow>
       (\<exists>x \<in> set des. (isCreate ex1 x \<or> isUpdate acct ex1 x) \<and> e = createRRsetPatch acct (snd x))
     \<or> (\<exists>y \<in> set ex1. isOrphan acct des y \<and> e = deletePatch (snd y))" for e
    unfolding ps by blast
  have key_in: "map_of des (patchKey e) \<noteq> None \<longleftrightarrow> RRset_ChangeType e = ''REPLACE''"
    and key_del: "RRset_ChangeType e = ''REPLACE'' \<or> RRset_ChangeType e = ''DELETE''"
    if "e \<in> set patchRRsets" for e
  proof -
    from that mem [of e] consider
      (rep) x where "x \<in> set des" "e = createRRsetPatch acct (snd x)"
    | (del) y where "y \<in> set ex1" "isOrphan acct des y" "e = deletePatch (snd y)"
      by blast
    then show "map_of des (patchKey e) \<noteq> None \<longleftrightarrow> RRset_ChangeType e = ''REPLACE''"
    proof cases
      case rep
      have "patchKey e = fst x" using keyed_patchKey [OF kd rep(1)] rep(2) by simp
      moreover have "RRset_ChangeType e = ''REPLACE''" using rep(2) by (simp add: createRRsetPatch_def)
      ultimately show ?thesis
        using keyed_map_of [OF kd rep(1)] by simp
    next
      case del
      have "patchKey e = fst y" using keyed_patchKey [OF k1 del(1)] del(3) by simp
      moreover have "RRset_ChangeType e = ''DELETE''" using del(3) by (simp add: deletePatch_def)
      moreover have "map_of des (fst y) = None" using del(2) by (simp add: isOrphan_def)
      ultimately show ?thesis by simp
    qed
    from that mem [of e] show "RRset_ChangeType e = ''REPLACE'' \<or> RRset_ChangeType e = ''DELETE''"
      by (auto simp: createRRsetPatch_def deletePatch_def)
  qed
  have no_rep: "\<not> (isCreate ex2 x \<or> isUpdate acct ex2 x)" if x: "x \<in> set des" for x
  proof (cases "isCreate ex1 x \<or> isUpdate acct ex1 x")
    case True
    let ?e = "createRRsetPatch acct (snd x)"
    have "?e \<in> set patchRRsets" using x True mem [of ?e] by blast
    moreover have "RRset_ChangeType ?e = ''REPLACE''" by (simp add: createRRsetPatch_def)
    moreover have "patchKey ?e = fst x"
      using keyed_patchKey [OF kd x] by simp
    ultimately obtain r where r: "map_of ex2 (fst x) = Some r"
      "mset (RRset_Records r) = mset (RRset_Records ?e)" "RRset_TTL r = RRset_TTL ?e"
      using pa unfolding patchApplied_def by metis
    have "\<not> shouldUpdateRRset (snd x) r"
      using r(2,3) by (intro shouldUpdateRRset_same) (simp_all add: createRRsetPatch_def)
    then show ?thesis using r(1) by (simp add: isCreate_def isUpdate_def)
  next
    case False
    have "fst x \<notin> patchKey ` set patchRRsets"
    proof
      assume "fst x \<in> patchKey ` set patchRRsets"
      then obtain e where e: "e \<in> set patchRRsets" "patchKey e = fst x" by auto
      from e(1) mem [of e] consider
        (rep) x' where "x' \<in> set des" "isCreate ex1 x' \<or> isUpdate acct ex1 x'"
          "e = createRRsetPatch acct (snd x')"
      | (del) y where "y \<in> set ex1" "isOrphan acct des y" "e = deletePatch (snd y)"
        by blast
      then show False
      proof cases
        case rep
        have "fst x' = fst x"
          using keyed_patchKey [OF kd rep(1)] e(2) rep(3) by simp
        then have "x' = x"
          using keyed_map_of [OF kd rep(1)] keyed_map_of [OF kd x] by (simp add: prod_eq_iff)
        with rep(2) False show False by simp
      next
        case del
        have "fst y = fst x"
          using keyed_patchKey [OF k1 del(1)] e(2) del(3) by simp
        then show False
          using del(2) keyed_map_of [OF kd x] by (simp add: isOrphan_def)
      qed
    qed
    then have "map_of ex2 (fst x) = map_of ex1 (fst x)"
      using pa unfolding patchApplied_def by blast
    then show ?thesis using False by (simp add: isCreate_def isUpdate_def)
  qed
  have no_orphan: "\<not> isOrphan acct des y" if y: "y \<in> set ex2" for y
  proof
    assume o: "isOrphan acct des y"
    have m2: "map_of ex2 (fst y) = Some (snd y)" by (rule keyed_map_of [OF k2 y])
    have "fst y \<notin> patchKey ` set patchRRsets"
    proof
      assume "fst y \<in> patchKey ` set patchRRsets"
      then obtain e where e: "e \<in> set patchRRsets" "patchKey e = fst y" by auto
      have "RRset_ChangeType e \<noteq> ''REPLACE''"
        using key_in [OF e(1)] e(2) o by (simp add: isOrphan_def)
      with key_del [OF e(1)] have "RRset_ChangeType e = ''DELETE''" by simp
      then have "map_of ex2 (fst y) = None"
        using pa e unfolding patchApplied_def by metis
      with m2 show False by simp
    qed
    then have "map_of ex1 (fst y) = Some (snd y)"
      using pa m2 unfolding patchApplied_def by metis
    then have "y \<in> set ex1" using keyed_mem [OF k1] by (metis prod.collapse)
    then have "deletePatch (snd y) \<in> set patchRRsets" using o mem [of "deletePatch (snd y)"] by blast
    moreover have "patchKey (deletePatch (snd y)) = fst y"
      using keyed_patchKey [OF k2 y] by simp
    ultimately show False using \<open>fst y \<notin> patchKey ` set patchRRsets\<close> by force
  qed
  have "filter (\<lambda>kd. isCreate ex2 kd \<or> isUpdate acct ex2 kd) des = []"
    using no_rep by (simp add: filter_empty_conv)
  moreover have "filter (isOrphan acct des) ex2 = []"
    using no_orphan by (simp add: filter_empty_conv)
  moreover have "filter (isCreate ex2) des = []" "filter (isUpdate acct ex2) des = []"
    using no_rep by (simp_all add: filter_empty_conv)
  ultimately show ?thesis
    by (simp add: diffRRsets_eq)
qed

lemma diff_patch_distinct:
  assumes kd: "keyed des" and k1: "keyed ex"
  shows "distinct (map patchKey (fst (diffRRsets acct des ex r)))"
proof -
  let ?rep = "filter (\<lambda>kd. isCreate ex kd \<or> isUpdate acct ex kd) des"
  let ?del = "filter (isOrphan acct des) ex"
  have 1: "map patchKey (map (\<lambda>kd. createRRsetPatch acct (snd kd)) ?rep) = map fst ?rep"
    using keyed_patchKey [OF kd] by (simp add: o_def)
  have 2: "map patchKey (map (\<lambda>ke. deletePatch (snd ke)) ?del) = map fst ?del"
    using keyed_patchKey [OF k1] by (simp add: o_def)
  have d1: "distinct (map fst ?rep)"
    using kd by (simp add: keyed_def distinct_map_filter)
  have d2: "distinct (map fst ?del)"
    using k1 by (simp add: keyed_def distinct_map_filter)
  have dis: "set (map fst ?rep) \<inter> set (map fst ?del) = {}"
  proof -
    have False if "x \<in> set des" "y \<in> set ex" "isOrphan acct des y" "fst x = fst y" for x y
      using that keyed_map_of [OF kd that(1)] by (simp add: isOrphan_def)
    then show ?thesis by fastforce
  qed
  have "fst (diffRRsets acct des ex r) =
          map (\<lambda>kd. createRRsetPatch acct (snd kd)) ?rep @ map (\<lambda>ke. deletePatch (snd ke)) ?del"
    by (simp add: diffRRsets_eq)
  then have "map patchKey (fst (diffRRsets acct des ex r)) = map fst ?rep @ map fst ?del"
    using 1 2 by (simp only: map_append)
  then show ?thesis
    using d1 d2 dis by simp
qed

lemma lookupState_update:
  "lookupState (AList.update k v al) x = (if x = k then v else lookupState al x)"
  by (simp add: lookupState_def update_conv')

lemma snapshot_cong:
  "GetZone (client m) s cn = GetZone (client m) s' cn \<Longrightarrow>
   snapshot m s' ez zd cn = snapshot m s ez zd cn"
  by (simp add: snapshot_def)

lemma settled_cong:
  "GetZone (client m) s cn = GetZone (client m) s' cn \<Longrightarrow>
   settled m s' cn cfg = settled m s cn cfg"
  by (simp add: settled_def)

lemma fetchZones_snapshot:
  "fetchZones m s names (ez0, zd0) = Inr (ez, zd) \<Longrightarrow>
   \<forall>cn \<in> N. snapshot m s ez0 zd0 cn \<Longrightarrow>
   \<forall>cn \<in> N \<union> CanonicalZoneName ` set names. snapshot m s ez zd cn"
proof (induction names arbitrary: ez0 zd0 N)
  case Nil
  then show ?case by simp
next
  case (Cons n names)
  let ?cn = "CanonicalZoneName n"
  show ?case
  proof (cases "GetZone (client m) s ?cn")
    case (Inl err)
    with Cons.prems(1) show ?thesis by (simp add: Let_def)
  next
    case (Inr zo)
    show ?thesis
    proof (cases zo)
      case None
      let ?ez = "AList.update ?cn \<lparr> ZoneState_Exists = False, ZoneState_IsManaged = False \<rparr> ez0"
      have run: "fetchZones m s names (?ez, zd0) = Inr (ez, zd)"
        using Cons.prems(1) Inr None by (simp add: Let_def)
      have inv: "\<forall>cn \<in> N \<union> {?cn}. snapshot m s ?ez zd0 cn"
        using Cons.prems(2) Inr None
        by (auto simp: snapshot_def lookupState_update split: sum.splits option.splits)
      from Cons.IH [OF run inv] show ?thesis by simp
    next
      case (Some zone)
      let ?ez = "AList.update ?cn \<lparr> ZoneState_Exists = True,
                  ZoneState_IsManaged = (Zone_Account zone = accountName m) \<rparr> ez0"
      let ?zd = "AList.update ?cn zone zd0"
      have run: "fetchZones m s names (?ez, ?zd) = Inr (ez, zd)"
        using Cons.prems(1) Inr Some by (simp add: Let_def)
      have inv: "\<forall>cn \<in> N \<union> {?cn}. snapshot m s ?ez ?zd cn"
        using Cons.prems(2) Inr Some
        by (auto simp: snapshot_def lookupState_update update_conv' split: sum.splits option.splits)
      from Cons.IH [OF run inv] show ?thesis by simp
    qed
  qed
qed

lemma fetchZones_succeeds:
  "\<forall>n \<in> set names. \<exists>zo. GetZone (client m) s (CanonicalZoneName n) = Inr zo \<Longrightarrow>
   \<exists>ez zd. fetchZones m s names maps = Inr (ez, zd)"
proof (induction names arbitrary: maps)
  case Nil
  show ?case by (cases maps) simp
next
  case (Cons n names)
  obtain ez0 zd0 where maps: "maps = (ez0, zd0)" by (cases maps)
  from Cons.prems obtain zo where g: "GetZone (client m) s (CanonicalZoneName n) = Inr zo" by auto
  from Cons.prems have rest: "\<forall>n \<in> set names. \<exists>zo. GetZone (client m) s (CanonicalZoneName n) = Inr zo"
    by simp
  show ?case
    using g Cons.IH [OF rest] by (cases zo) (simp_all add: maps Let_def)
qed

lemma validateRRsetsLoop_append:
  "validateRRsetsLoop zn i rrsets seen (a @ b) = a @ validateRRsetsLoop zn i rrsets seen b"
  by (induction rrsets arbitrary: i seen a b) (auto simp: Let_def split: sum.splits)

lemma validateRRsets_eq:
  "validateRRsets zn rrsets errs = errs @ validateRRsets zn rrsets []"
  using validateRRsetsLoop_append [of zn 0 rrsets "[]" errs "[]"]
  by (simp add: validateRRsets_def)

lemma validateZone_eq:
  "validateZone zn zone ez errs = errs @ validateZone zn zone ez []"
  unfolding validateZone_def Let_def
  by (subst validateRRsets_eq, subst (2) validateRRsets_eq) simp

lemma fold_validateZone_Nil:
  "fold (\<lambda>(zn, zone) errs. validateZone zn zone ez errs) zs errs = [] \<longleftrightarrow>
   errs = [] \<and> (\<forall>z \<in> set zs. validateZone (fst z) (snd z) ez [] = [])"
proof (induction zs arbitrary: errs)
  case Nil
  show ?case by simp
next
  case (Cons z zs)
  obtain zn zone where z: "z = (zn, zone)" by (cases z)
  have "validateZone zn zone ez errs = [] \<longleftrightarrow> errs = [] \<and> validateZone zn zone ez [] = []"
    by (subst validateZone_eq) simp
  then show ?case
    using Cons.IH [of "validateZone zn zone ez errs"] by (auto simp: z)
qed

lemma Validate_None_iff:
  "Validate c ez = None \<longleftrightarrow> (\<forall>z \<in> set (Config_Zones c). validateZone (fst z) (snd z) ez [] = [])"
  using fold_validateZone_Nil [of ez "Config_Zones c" "[]"]
  by (simp add: Validate_def Let_def)

lemma validateZone_Nil_managed:
  assumes "validateZone zn zone ez [] = []"
  shows "ZoneState_Exists (lookupState ez (CanonicalZoneName zn)) \<longrightarrow>
         ZoneState_IsManaged (lookupState ez (CanonicalZoneName zn))"
  using assms unfolding validateZone_def Let_def
  by (subst (asm) validateRRsets_eq) (auto split: if_splits)

lemma validateZone_Nil_later:
  assumes "validateZone zn zone ez [] = []"
      and "lookupState ez' (CanonicalZoneName zn) = managedState"
  shows "validateZone zn zone ez' [] = []"
  using assms unfolding validateZone_def Let_def managedState_def
  by (subst validateRRsets_eq, subst (asm) validateRRsets_eq) (auto split: if_splits)

lemma nsDesired_managedState:
  "ZoneState_IsManaged state \<or> \<not> ZoneState_Exists state \<Longrightarrow>
   nsDesired zoneID cfg state = nsDesired zoneID cfg managedState"
  by (auto simp: nsDesired_def managedState_def)

lemma buildDesiredRRsets_managedState:
  "ZoneState_IsManaged state \<or> \<not> ZoneState_Exists state \<Longrightarrow>
   buildDesiredRRsets zoneID cfg state = buildDesiredRRsets zoneID cfg managedState"
  by (simp add: buildDesiredRRsets_def nsDesired_managedState)

lemma applyRRsets_settles:
  assumes f: "faithfulBackend (client m)"
      and g: "GetZone (client m) (backend w) zoneID = Inr (Some zone)"
      and a: "Zone_Account zone = accountName m"
      and nd: "\<not> ApplyOptions_DryRun opts"
      and st: "ZoneState_IsManaged state \<or> \<not> ZoneState_Exists state"
      and run: "applyRRsets m zoneID cfg (Some zone) state opts w result = Some (None, w', result')"
  shows "settled m (backend w') zoneID cfg \<and>
         (\<forall>name. name \<noteq> zoneID \<longrightarrow>
            GetZone (client m) (backend w') name = GetZone (client m) (backend w) name)"
proof -
  obtain des where des: "buildDesiredRRsets zoneID cfg state = Inr des"
    using run by (cases "buildDesiredRRsets zoneID cfg state") (simp_all add: applyRRsets_def)
  have des': "buildDesiredRRsets zoneID cfg managedState = Inr des"
    using des buildDesiredRRsets_managedState [OF st] by simp
  have kd: "keyed des" by (rule keyed_buildDesiredRRsets [OF des])
  let ?ex = "indexRRsets (Zone_RRsets zone)"
  obtain patchRRsets r1 where d: "diffRRsets (accountName m) des ?ex result = (patchRRsets, r1)"
    by (cases "diffRRsets (accountName m) des ?ex result")
  have sp: "sendPatch m zoneID patchRRsets opts w = (None, w')"
    using run des d by (simp add: applyRRsets_def Let_def split: prod.splits)
  have dist: "distinct (map patchKey patchRRsets)"
    using diff_patch_distinct [OF kd keyed_indexRRsets, of "accountName m" "Zone_RRsets zone" result] d
    by simp
  have "\<exists>zone'. GetZone (client m) (backend w') zoneID = Inr (Some zone') \<and>
          Zone_Account zone' = accountName m \<and>
          patchApplied patchRRsets (map_of ?ex) (map_of (indexRRsets (Zone_RRsets zone')))"
    and frame: "\<forall>name. name \<noteq> zoneID \<longrightarrow>
            GetZone (client m) (backend w') name = GetZone (client m) (backend w) name"
  proof -
    show "\<exists>zone'. GetZone (client m) (backend w') zoneID = Inr (Some zone') \<and>
          Zone_Account zone' = accountName m \<and>
          patchApplied patchRRsets (map_of ?ex) (map_of (indexRRsets (Zone_RRsets zone')))"
    proof (cases "patchRRsets = []")
      case True
      then have "w' = w" using sp by (simp add: sendPatch_def)
      then show ?thesis using g a True patchApplied_Nil by auto
    next
      case False
      obtain res s' where pz: "PatchZone (client m) (backend w) zoneID \<lparr> ZonePatch_RRsets = patchRRsets \<rparr> = (res, s')"
        by (cases "PatchZone (client m) (backend w) zoneID \<lparr> ZonePatch_RRsets = patchRRsets \<rparr>")
      have "res = None \<and> backend w' = s'"
        using sp False nd pz
        by (auto simp: sendPatch_def Let_def split: if_splits option.splits)
      then have pz': "PatchZone (client m) (backend w) zoneID \<lparr> ZonePatch_RRsets = patchRRsets \<rparr> = (None, backend w')"
        using pz by simp
      from f pz' g dist show ?thesis
        unfolding faithfulBackend_def using a by fastforce
    qed
    show "\<forall>name. name \<noteq> zoneID \<longrightarrow>
            GetZone (client m) (backend w') name = GetZone (client m) (backend w) name"
    proof (cases "patchRRsets = []")
      case True
      then have "w' = w" using sp by (simp add: sendPatch_def)
      then show ?thesis by simp
    next
      case False
      obtain res s' where pz: "PatchZone (client m) (backend w) zoneID \<lparr> ZonePatch_RRsets = patchRRsets \<rparr> = (res, s')"
        by (cases "PatchZone (client m) (backend w) zoneID \<lparr> ZonePatch_RRsets = patchRRsets \<rparr>")
      have "res = None \<and> backend w' = s'"
        using sp False nd pz
        by (auto simp: sendPatch_def Let_def split: if_splits option.splits)
      then have pz': "PatchZone (client m) (backend w) zoneID \<lparr> ZonePatch_RRsets = patchRRsets \<rparr> = (None, backend w')"
        using pz by simp
      from f pz' g dist show ?thesis
        unfolding faithfulBackend_def by fastforce
    qed
  qed
  then obtain zone' where z': "GetZone (client m) (backend w') zoneID = Inr (Some zone')"
      "Zone_Account zone' = accountName m"
      "patchApplied patchRRsets (map_of ?ex) (map_of (indexRRsets (Zone_RRsets zone')))"
    by blast
  have "\<forall>r2. diffRRsets (accountName m) des (indexRRsets (Zone_RRsets zone')) r2 = ([], r2)"
    using second_diff_zero [OF kd keyed_indexRRsets keyed_indexRRsets d z'(3)] by simp
  then have "settled m (backend w') zoneID cfg"
    unfolding settled_def using z'(1,2) des' by blast
  with frame show ?thesis by simp
qed

lemma applyZone_settles:
  assumes f: "faithfulBackend (client m)"
      and nd: "\<not> ApplyOptions_DryRun opts"
      and snap: "snapshot m (backend w) ez zd zoneID"
      and man: "ZoneState_Exists (lookupState ez zoneID) \<longrightarrow> ZoneState_IsManaged (lookupState ez zoneID)"
      and run: "applyZone m zoneID cfg (lookupState ez zoneID) (map_of zd zoneID) opts w result
                = Some (None, w', result')"
  shows "settled m (backend w') zoneID cfg \<and>
         (\<forall>name. name \<noteq> zoneID \<longrightarrow>
            GetZone (client m) (backend w') name = GetZone (client m) (backend w) name)"
proof (cases "ZoneState_Exists (lookupState ez zoneID)")
  case True
  with man have im: "ZoneState_IsManaged (lookupState ez zoneID)" by simp
  from snap True obtain zone where z: "GetZone (client m) (backend w) zoneID = Inr (Some zone)"
      "lookupState ez zoneID = \<lparr> ZoneState_Exists = True,
              ZoneState_IsManaged = (Zone_Account zone = accountName m) \<rparr>"
      "map_of zd zoneID = Some zone"
    by (auto simp: snapshot_def split: sum.splits option.splits)
  have a: "Zone_Account zone = accountName m" using im z(2) by simp
  have run': "applyRRsets m zoneID cfg (Some zone) (lookupState ez zoneID) opts w result
                = Some (None, w', result')"
    using run True z(3) by (simp add: applyZone_def)
  show ?thesis
    by (rule applyRRsets_settles [OF f z(1) a nd _ run']) (simp add: im)
next
  case False
  let ?zone = "newZone m zoneID cfg"
  obtain res s' where cz: "CreateZone (client m) (backend w) ?zone = (res, s')"
    by (cases "CreateZone (client m) (backend w) ?zone")
  let ?w1 = "\<lparr> backend = s', calls = calls w @ [CreateZoneCall ?zone] \<rparr>"
  obtain created where cr: "res = Inr created"
    using run False nd cz by (cases res) (simp_all add: applyZone_def Let_def)
  have run': "applyRRsets m zoneID cfg (Some created) (lookupState ez zoneID) opts ?w1
                (result\<lparr>ApplyResult_ZonesCreated := ApplyResult_ZonesCreated result + 1\<rparr>)
              = Some (None, w', result')"
    using run False nd cz cr by (simp add: applyZone_def Let_def)
  have law: "GetZone (client m) s' zoneID = Inr (Some created)"
      "Zone_Account created = accountName m"
      "\<forall>name. name \<noteq> zoneID \<longrightarrow> GetZone (client m) s' name = GetZone (client m) (backend w) name"
  proof -
    have cz': "CreateZone (client m) (backend w) ?zone = (Inr created, s')" using cz cr by simp
    have n: "Zone_Name ?zone = zoneID" "Zone_Account ?zone = accountName m"
      by (simp_all add: newZone_def)
    from f cz' have "GetZone (client m) s' (Zone_Name ?zone) = Inr (Some created) \<and>
           Zone_Account created = Zone_Account ?zone \<and>
           (\<forall>name. name \<noteq> Zone_Name ?zone \<longrightarrow> GetZone (client m) s' name = GetZone (client m) (backend w) name)"
      unfolding faithfulBackend_def by blast
    then show "GetZone (client m) s' zoneID = Inr (Some created)"
      "Zone_Account created = accountName m"
      "\<forall>name. name \<noteq> zoneID \<longrightarrow> GetZone (client m) s' name = GetZone (client m) (backend w) name"
      using n by simp_all
  qed
  have g1: "GetZone (client m) (backend ?w1) zoneID = Inr (Some created)" using law(1) by simp
  have "settled m (backend w') zoneID cfg \<and>
         (\<forall>name. name \<noteq> zoneID \<longrightarrow>
            GetZone (client m) (backend w') name = GetZone (client m) (backend ?w1) name)"
    by (rule applyRRsets_settles [OF f g1 law(2) nd _ run']) (simp add: False)
  then show ?thesis using law(3) by simp
qed

lemma applyZones_settles:
  assumes f: "faithfulBackend (client m)"
      and nd: "\<not> ApplyOptions_DryRun opts"
  shows "distinct (map (\<lambda>z. CanonicalZoneName (fst z)) zs) \<Longrightarrow>
     \<forall>z \<in> set zs. snapshot m (backend w) ez zd (CanonicalZoneName (fst z)) \<Longrightarrow>
     \<forall>z \<in> set zs. ZoneState_Exists (lookupState ez (CanonicalZoneName (fst z))) \<longrightarrow>
                   ZoneState_IsManaged (lookupState ez (CanonicalZoneName (fst z))) \<Longrightarrow>
     applyZones m opts ez zd zs w result = Some (w', result') \<Longrightarrow>
     ApplyResult_Errors result' = [] \<Longrightarrow>
     (\<forall>z \<in> set zs. settled m (backend w') (CanonicalZoneName (fst z)) (NormalizeZone (snd z))) \<and>
     (\<forall>name. name \<notin> (\<lambda>z. CanonicalZoneName (fst z)) ` set zs \<longrightarrow>
        GetZone (client m) (backend w') name = GetZone (client m) (backend w) name)"
proof (induction zs arbitrary: w result)
  case Nil
  then show ?case by simp
next
  case (Cons z zs)
  obtain zoneName zoneConfig where z: "z = (zoneName, zoneConfig)" by (cases z)
  let ?cn = "CanonicalZoneName zoneName"
  let ?az = "applyZone m ?cn (NormalizeZone zoneConfig) (lookupState ez ?cn) (map_of zd ?cn) opts w result"
  from Cons.prems(4) obtain err w1 r1 where az: "?az = Some (err, w1, r1)"
    by (cases ?az) (auto simp: z Let_def)
  have "err = None"
  proof (rule ccontr)
    assume "err \<noteq> None"
    then obtain e where e: "err = Some e" by auto
    let ?r = "r1\<lparr>ApplyResult_Errors := ApplyResult_Errors r1 @ [ZoneError zoneName e]\<rparr>"
    have "applyZones m opts ez zd zs w1 ?r = Some (w', result')"
      using Cons.prems(4) az e by (simp add: z Let_def)
    from applyZones_Errors_mono [OF this] Cons.prems(5) show False by simp
  qed
  with az have az': "?az = Some (None, w1, r1)" by simp
  have rest: "applyZones m opts ez zd zs w1 r1 = Some (w', result')"
    using Cons.prems(4) az' by (simp add: z Let_def)
  have snap: "snapshot m (backend w) ez zd ?cn" using Cons.prems(2) by (simp add: z)
  have man: "ZoneState_Exists (lookupState ez ?cn) \<longrightarrow> ZoneState_IsManaged (lookupState ez ?cn)"
    using Cons.prems(3) by (simp add: z)
  from applyZone_settles [OF f nd snap man az']
  have s1: "settled m (backend w1) ?cn (NormalizeZone zoneConfig)"
    and fr1: "\<forall>name. name \<noteq> ?cn \<longrightarrow>
            GetZone (client m) (backend w1) name = GetZone (client m) (backend w) name"
    by simp_all
  have notin: "?cn \<notin> (\<lambda>z. CanonicalZoneName (fst z)) ` set zs"
    using Cons.prems(1) by (simp add: z)
  have d: "distinct (map (\<lambda>z. CanonicalZoneName (fst z)) zs)" using Cons.prems(1) by simp
  have sn: "\<forall>z \<in> set zs. snapshot m (backend w1) ez zd (CanonicalZoneName (fst z))"
  proof
    fix y assume y: "y \<in> set zs"
    then have "CanonicalZoneName (fst y) \<noteq> ?cn" using notin by force
    with fr1 have "GetZone (client m) (backend w) (CanonicalZoneName (fst y))
                 = GetZone (client m) (backend w1) (CanonicalZoneName (fst y))" by simp
    from snapshot_cong [OF this] Cons.prems(2) y
    show "snapshot m (backend w1) ez zd (CanonicalZoneName (fst y))" by simp
  qed
  have mn: "\<forall>z \<in> set zs. ZoneState_Exists (lookupState ez (CanonicalZoneName (fst z))) \<longrightarrow>
                   ZoneState_IsManaged (lookupState ez (CanonicalZoneName (fst z)))"
    using Cons.prems(3) by simp
  from Cons.IH [OF d sn mn rest Cons.prems(5)]
  have s2: "\<forall>z \<in> set zs. settled m (backend w') (CanonicalZoneName (fst z)) (NormalizeZone (snd z))"
    and fr2: "\<forall>name. name \<notin> (\<lambda>z. CanonicalZoneName (fst z)) ` set zs \<longrightarrow>
        GetZone (client m) (backend w') name = GetZone (client m) (backend w1) name"
    by simp_all
  have "GetZone (client m) (backend w1) ?cn = GetZone (client m) (backend w') ?cn"
    using fr2 notin by simp
  from settled_cong [OF this] s1 have s1': "settled m (backend w') ?cn (NormalizeZone zoneConfig)"
    by simp
  have "\<forall>name. name \<notin> (\<lambda>z. CanonicalZoneName (fst z)) ` set (z # zs) \<longrightarrow>
        GetZone (client m) (backend w') name = GetZone (client m) (backend w) name"
    using fr1 fr2 by (simp add: z)
  with s1' s2 show ?case by (simp add: z)
qed

lemma applyZone_settled:
  assumes s: "settled m (backend w) zoneID cfg"
      and snap: "snapshot m (backend w) ez zd zoneID"
  shows "lookupState ez zoneID = managedState \<and>
         applyZone m zoneID cfg (lookupState ez zoneID) (map_of zd zoneID) opts w result
           = Some (None, w, result)"
proof -
  from s obtain zone des where z: "GetZone (client m) (backend w) zoneID = Inr (Some zone)"
      "Zone_Account zone = accountName m"
      "buildDesiredRRsets zoneID cfg managedState = Inr des"
      "\<forall>result. diffRRsets (accountName m) des (indexRRsets (Zone_RRsets zone)) result = ([], result)"
    unfolding settled_def by blast
  from snap z(1,2) have st: "lookupState ez zoneID = managedState" "map_of zd zoneID = Some zone"
    by (simp_all add: snapshot_def managedState_def)
  have "applyZone m zoneID cfg managedState (Some zone) opts w result = Some (None, w, result)"
    using z(3,4) by (simp add: applyZone_def applyRRsets_def managedState_def sendPatch_def)
  with st show ?thesis by simp
qed

lemma applyZones_settled:
  "\<forall>z \<in> set zs. settled m (backend w) (CanonicalZoneName (fst z)) (NormalizeZone (snd z)) \<and>
                 snapshot m (backend w) ez zd (CanonicalZoneName (fst z)) \<Longrightarrow>
   applyZones m opts ez zd zs w result = Some (w, result)"
proof (induction zs)
  case Nil
  show ?case by simp
next
  case (Cons z zs)
  obtain zoneName zoneConfig where z: "z = (zoneName, zoneConfig)" by (cases z)
  from Cons.prems have "settled m (backend w) (CanonicalZoneName zoneName) (NormalizeZone zoneConfig)"
    "snapshot m (backend w) ez zd (CanonicalZoneName zoneName)"
    by (simp_all add: z)
  from applyZone_settled [OF this, of opts result, THEN conjunct2]
  have az: "applyZone m (CanonicalZoneName zoneName) (NormalizeZone zoneConfig)
              (lookupState ez (CanonicalZoneName zoneName))
              (map_of zd (CanonicalZoneName zoneName)) opts w result = Some (None, w, result)" .
  have "applyZones m opts ez zd zs w result = Some (w, result)"
    using Cons.IH Cons.prems by simp
  then show ?case
    using az by (simp add: z Let_def)
qed

lemma settled_GetZone:
  "settled m s zoneID cfg \<Longrightarrow> \<exists>zo. GetZone (client m) s zoneID = Inr zo"
  unfolding settled_def by blast

text \<open>
  Claim C2, amended. Let the backend keep what it is given (\<open>faithfulBackend\<close>), and
  let no two zone names of the configuration have the same canonical name. If a run that
  is not a dry run returns a result with no error, then a second run of the same
  configuration from the world that the first run left, whatever its options, returns
  the empty result: no zone created, no record set created, updated or deleted, and no
  error. It also leaves the world as it found it, so it makes no call that changes the
  backend.
\<close>

theorem second_run_changes_nothing:
  assumes f: "faithfulBackend (client m)"
      and nd: "\<not> ApplyOptions_DryRun opts"
      and dist: "distinct (map (\<lambda>z. CanonicalZoneName (fst z)) (Config_Zones cfg))"
      and run: "Apply m cfg opts w = Some (Inr result, w')"
      and ok: "ApplyResult_Errors result = []"
  shows "Apply m cfg opts' w' = Some (Inr emptyResult, w') \<and>
         counters emptyResult = (0, 0, 0, 0)"
proof -
  let ?names = "map fst (Config_Zones cfg)"
  obtain ez zd where fz: "fetchZones m (backend w) ?names ([], []) = Inr (ez, zd)"
    using run by (cases "fetchZones m (backend w) ?names ([], [])") (auto simp: Apply_def)
  have v: "Validate cfg ez = None"
    using run fz by (cases "Validate cfg ez") (simp_all add: Apply_def)
  have az: "applyZones m opts ez zd (Config_Zones cfg) w emptyResult = Some (w', result)"
    using run fz v by (auto simp: Apply_def split: option.splits)
  have "\<forall>cn \<in> {} \<union> CanonicalZoneName ` set ?names. snapshot m (backend w) ez zd cn"
    by (rule fetchZones_snapshot [OF fz]) simp
  then have sn: "\<forall>z \<in> set (Config_Zones cfg). snapshot m (backend w) ez zd (CanonicalZoneName (fst z))"
    by simp
  have mn: "\<forall>z \<in> set (Config_Zones cfg).
      ZoneState_Exists (lookupState ez (CanonicalZoneName (fst z))) \<longrightarrow>
      ZoneState_IsManaged (lookupState ez (CanonicalZoneName (fst z)))"
    using v validateZone_Nil_managed unfolding Validate_None_iff by blast
  from applyZones_settles [OF f nd dist sn mn az ok]
  have st: "\<forall>z \<in> set (Config_Zones cfg).
      settled m (backend w') (CanonicalZoneName (fst z)) (NormalizeZone (snd z))"
    by simp
  have "\<forall>n \<in> set ?names. \<exists>zo. GetZone (client m) (backend w') (CanonicalZoneName n) = Inr zo"
    using st settled_GetZone by fastforce
  from fetchZones_succeeds [OF this, of "([], [])"]
  obtain ez2 zd2 where fz2: "fetchZones m (backend w') ?names ([], []) = Inr (ez2, zd2)" by blast
  have "\<forall>cn \<in> {} \<union> CanonicalZoneName ` set ?names. snapshot m (backend w') ez2 zd2 cn"
    by (rule fetchZones_snapshot [OF fz2]) simp
  then have sn2: "\<forall>z \<in> set (Config_Zones cfg). snapshot m (backend w') ez2 zd2 (CanonicalZoneName (fst z))"
    by simp
  have ms: "\<forall>z \<in> set (Config_Zones cfg). lookupState ez2 (CanonicalZoneName (fst z)) = managedState"
    using st sn2 applyZone_settled by blast
  have v2: "Validate cfg ez2 = None"
    unfolding Validate_None_iff
  proof
    fix z assume z: "z \<in> set (Config_Zones cfg)"
    from v z have "validateZone (fst z) (snd z) ez [] = []" unfolding Validate_None_iff by blast
    from validateZone_Nil_later [OF this] ms z
    show "validateZone (fst z) (snd z) ez2 [] = []" by blast
  qed
  have az2: "applyZones m opts' ez2 zd2 (Config_Zones cfg) w' emptyResult = Some (w', emptyResult)"
    by (rule applyZones_settled) (use st sn2 in blast)
  show ?thesis
    using fz2 v2 az2 by (simp add: Apply_def counters_def emptyResult_def)
qed

lemma idx_snoc:
  "map_of (indexRRsets (rs @ [r])) = (map_of (indexRRsets rs))(patchKey r \<mapsto> r)"
  by (simp add: indexRRsets_def update_conv' patchKey_def)

lemma idx_filter:
  "map_of (indexRRsets (filter (\<lambda>r. patchKey r \<noteq> k) rs)) = (map_of (indexRRsets rs))(k := None)"
proof (induction rs rule: rev_induct)
  case Nil
  show ?case by (simp add: indexRRsets_def)
next
  case (snoc r rs)
  show ?case
  proof (cases "patchKey r = k")
    case True
    then show ?thesis using snoc by (auto simp: idx_snoc)
  next
    case False
    then show ?thesis using snoc by (auto simp: idx_snoc)
  qed
qed

lemma idx_applyEntry:
  "map_of (indexRRsets (applyEntry e rs)) =
     (if RRset_ChangeType e = ''DELETE'' then (map_of (indexRRsets rs))(patchKey e := None)
      else (map_of (indexRRsets rs))(patchKey e \<mapsto> e\<lparr>RRset_ChangeType := []\<rparr>))"
proof -
  have "patchKey (e\<lparr>RRset_ChangeType := []\<rparr>) = patchKey e" by (simp add: patchKey_def)
  then show ?thesis
    using idx_snoc [of "filter (\<lambda>r. patchKey r \<noteq> patchKey e) rs" "e\<lparr>RRset_ChangeType := []\<rparr>"]
    by (simp add: applyEntry_def Let_def idx_filter)
qed

lemma patchApplied_fold_applyEntry:
  "distinct (map patchKey p) \<Longrightarrow>
   patchApplied p (map_of (indexRRsets rs)) (map_of (indexRRsets (fold applyEntry p rs)))"
proof (induction p arbitrary: rs)
  case Nil
  show ?case by (simp add: patchApplied_Nil)
next
  case (Cons e p)
  let ?mid = "map_of (indexRRsets (applyEntry e rs))"
  let ?new = "map_of (indexRRsets (fold applyEntry p (applyEntry e rs)))"
  from Cons.prems have d: "distinct (map patchKey p)" and n: "patchKey e \<notin> patchKey ` set p"
    by simp_all
  have ih: "patchApplied p ?mid ?new" by (rule Cons.IH [OF d])
  then have keep: "?new (patchKey e) = ?mid (patchKey e)"
    using n unfolding patchApplied_def by blast
  have e1: "RRset_ChangeType e = ''DELETE'' \<longrightarrow> ?new (patchKey e) = None"
    using keep by (simp add: idx_applyEntry)
  have e2: "RRset_ChangeType e = ''REPLACE'' \<longrightarrow>
      (\<exists>r. ?new (patchKey e) = Some r \<and> mset (RRset_Records r) = mset (RRset_Records e) \<and>
           RRset_TTL r = RRset_TTL e \<and> RRset_Comments r = RRset_Comments e)"
    using keep by (simp add: idx_applyEntry)
  have rest: "\<forall>key. key \<notin> patchKey ` set (e # p) \<longrightarrow> ?new key = map_of (indexRRsets rs) key"
  proof (intro allI impI)
    fix key assume k: "key \<notin> patchKey ` set (e # p)"
    then have "?new key = ?mid key" using ih unfolding patchApplied_def by simp
    also have "\<dots> = map_of (indexRRsets rs) key" using k by (simp add: idx_applyEntry)
    finally show "?new key = map_of (indexRRsets rs) key" .
  qed
  have old: "\<forall>x \<in> set p.
         (RRset_ChangeType x = ''DELETE'' \<longrightarrow> ?new (patchKey x) = None) \<and>
         (RRset_ChangeType x = ''REPLACE'' \<longrightarrow>
            (\<exists>r. ?new (patchKey x) = Some r \<and> mset (RRset_Records r) = mset (RRset_Records x) \<and>
                 RRset_TTL r = RRset_TTL x \<and> RRset_Comments r = RRset_Comments x))"
    using ih unfolding patchApplied_def by blast
  show ?case
    unfolding patchApplied_def using e1 e2 rest old by simp
qed

lemma faithfulBackend_storeClient: "faithfulBackend storeClient"
proof -
  have create: "GetZone storeClient s' (Zone_Name zone) = Inr (Some created) \<and>
           Zone_Account created = Zone_Account zone \<and>
           (\<forall>name. name \<noteq> Zone_Name zone \<longrightarrow> GetZone storeClient s' name = GetZone storeClient s name)"
    if "CreateZone storeClient s zone = (Inr created, s')" for s zone created s'
    using that by (auto simp: storeClient_def update_conv' split: option.splits)
  have patch: "(\<exists>zone'. GetZone storeClient s' zoneID = Inr (Some zone') \<and>
                    Zone_Account zone' = Zone_Account zone \<and>
                    patchApplied (ZonePatch_RRsets patch)
                      (map_of (indexRRsets (Zone_RRsets zone)))
                      (map_of (indexRRsets (Zone_RRsets zone')))) \<and>
           (\<forall>name. name \<noteq> zoneID \<longrightarrow> GetZone storeClient s' name = GetZone storeClient s name)"
    if "PatchZone storeClient s zoneID patch = (None, s')"
       "GetZone storeClient s zoneID = Inr (Some zone)"
       "distinct (map patchKey (ZonePatch_RRsets patch))" for s zoneID patch s' zone
  proof -
    from that(2) have z: "map_of s zoneID = Some zone" by (simp add: storeClient_def)
    with that(1) have s': "s' = AList.update zoneID
                (zone\<lparr>Zone_RRsets := fold applyEntry (ZonePatch_RRsets patch) (Zone_RRsets zone)\<rparr>) s"
      by (simp add: storeClient_def)
    show ?thesis
      using patchApplied_fold_applyEntry [OF that(3), of "Zone_RRsets zone"]
      by (auto simp: s' storeClient_def update_conv')
  qed
  show ?thesis
    unfolding faithfulBackend_def using create patch by blast
qed

theorem second_run_changes_nothing_witness:
  "faithfulBackend (client storeMgr) \<and> \<not> ApplyOptions_DryRun opts_real
   \<and> distinct (map (\<lambda>z. CanonicalZoneName (fst z)) (Config_Zones cfg_store))
   \<and> outcomeErrors (Apply storeMgr cfg_store opts_real w_store) = Some []
   \<and> outcomeCounters (Apply storeMgr cfg_store opts_real w_store) = Some (Inr (1, 4, 1, 1))
   \<and> outcomeCounters (secondRun storeMgr cfg_store opts_real w_store) = Some (Inr (0, 0, 0, 0))
   \<and> map_option snd (secondRun storeMgr cfg_store opts_real w_store) =
       map_option snd (Apply storeMgr cfg_store opts_real w_store)"
proof -
  let ?out = "the (Apply storeMgr cfg_store opts_real w_store)"
  have f: "faithfulBackend (client storeMgr)"
    using faithfulBackend_storeClient by (simp add: storeMgr_def NewManager_def)
  have nd: "\<not> ApplyOptions_DryRun opts_real" by (simp add: opts_real_def)
  have dist: "distinct (map (\<lambda>z. CanonicalZoneName (fst z)) (Config_Zones cfg_store))"
    by code_simp
  have run: "Apply storeMgr cfg_store opts_real w_store = Some (Inr (projr (fst ?out)), snd ?out)"
    by code_simp
  have ok: "ApplyResult_Errors (projr (fst ?out)) = []"
    by code_simp
  have e1: "outcomeErrors (Apply storeMgr cfg_store opts_real w_store) = Some []"
    by code_simp
  have c1: "outcomeCounters (Apply storeMgr cfg_store opts_real w_store) = Some (Inr (1, 4, 1, 1))"
    by code_simp
  have two: "Apply storeMgr cfg_store opts_real (snd ?out) = Some (Inr emptyResult, snd ?out)"
    using second_run_changes_nothing [OF f nd dist run ok, of opts_real] by simp
  have sr: "secondRun storeMgr cfg_store opts_real w_store = Some (Inr emptyResult, snd ?out)"
    unfolding secondRun_def by (subst run) (simp add: two)
  have c2: "outcomeCounters (secondRun storeMgr cfg_store opts_real w_store) = Some (Inr (0, 0, 0, 0))"
    unfolding sr by (simp add: outcomeCounters_def counters_def emptyResult_def)
  have w2: "map_option snd (secondRun storeMgr cfg_store opts_real w_store) =
       map_option snd (Apply storeMgr cfg_store opts_real w_store)"
    unfolding sr by (subst (2) run) simp
  from f nd dist e1 c1 c2 w2 show ?thesis by blast
qed

text \<open>
  Claim C2 as stated fails. After a dry run nothing has changed, so a second dry run
  counts the zone and its two record sets again. After a run whose patch was declined
  at the confirmation, the zone exists and the second run counts the two record sets
  again. With the client of the tests, which records an accepted patch and does not
  apply it, the second run counts them again as well. With a backend that applies the
  patches and two zone names of the same canonical name, both are diffed against the one
  zone as it was fetched: the first run creates the record set of each, and the second
  run deletes, for each name, the record set of the other.
\<close>

theorem second_run_repeats_counterexample:
  "outcomeErrors (Apply mgr cfg_new opts_dry w_empty) = Some []
   \<and> outcomeCounters (secondRun mgr cfg_new opts_dry w_empty) = Some (Inr (1, 2, 0, 0))
   \<and> outcomeErrors (Apply mgr_declining cfg_new opts_real w_empty) =
       Some [ZoneError ''example.com'' ErrAborted]
   \<and> outcomeCounters (secondRun mgr_declining cfg_new opts_real w_empty) = Some (Inr (0, 2, 0, 0))
   \<and> outcomeErrors (Apply mgr cfg_new opts_real w_empty) = Some []
   \<and> outcomeCounters (secondRun mgr cfg_new opts_real w_empty) = Some (Inr (0, 2, 0, 0))
   \<and> outcomeErrors (Apply storeMgr cfg_dup opts_real w_dup) = Some []
   \<and> outcomeCounters (secondRun storeMgr cfg_dup opts_real w_dup) = Some (Inr (0, 0, 0, 2))"
  by code_simp

end
